theory Spec2Isabelle
  imports Main "HOL-Library.Sublist" "HOL-Library.AList"
begin

section \<open>Strings and JSON values\<close>

text \<open>
  JavaScript strings are modelled as \<open>string\<close>: one \<open>char\<close> per code unit, for code
  units below 256. \<open>length\<close> is the \<open>.length\<close> of the source.

  \<open>String.prototype.trim\<close> removes white space and line terminators from both ends.
  Below 256 these are TAB, LF, VT, FF, CR, SPACE and NBSP.
\<close>

definition isWhiteSpace :: "char \<Rightarrow> bool" where
  "isWhiteSpace c =
     (c = CHR 0x09 \<or> c = CHR 0x0A \<or> c = CHR 0x0B \<or> c = CHR 0x0C \<or> c = CHR 0x0D \<or>
      c = CHR 0x20 \<or> c = CHR 0xA0)"

definition trim :: "string \<Rightarrow> string" where
  "trim s = rev (dropWhile isWhiteSpace (rev (dropWhile isWhiteSpace s)))"

text \<open>
  A JSON value, as \<open>JSON.parse\<close> and \<open>req.json()\<close> produce it and as a \<open>jsonb\<close>
  column stores it. A number \<open>JNumber m e\<close> stands for \<open>m * 10 ^ e\<close>; no definition
  below looks inside a number. An object is its list of members in insertion order.
\<close>

datatype json =
    JNull
  | JBool bool
  | JNumber int int
  | JString string
  | JArray "json list"
  | JObject "(string \<times> json) list"

text \<open>Property access \<open>v[k]\<close> on a parsed value; \<open>None\<close> is \<open>undefined\<close>.\<close>

fun field :: "json \<Rightarrow> string \<Rightarrow> json option" where
  "field (JObject kvs) k = map_of kvs k"
| "field _ k = None"

section \<open>Zod schemas (src/lib/validation/schemas.ts)\<close>

text \<open>
  A schema is a function from the place of the value (its path) and the value (\<open>None\<close> for
  \<open>undefined\<close>) to the issues found or the parsed output. An issue is kept as its Zod
  issue code and path; the message texts are not modelled. All issues of a value are
  collected, and the parse fails when there is at least one.
\<close>

datatype issue_code = invalid_type | too_small | too_big | invalid_value

datatype seg = Key string | Idx nat

datatype issue = Issue issue_code "seg list"

type_synonym 'a parsed = "issue list + 'a"

fun issues :: "'a parsed \<Rightarrow> issue list" where
  "issues (Inl is) = is"
| "issues (Inr _) = []"

text \<open>
  \<open>z.string().min(lo).max(hi).trim()\<close>: the length checks run on the string as given, in
  the order written, and \<open>.trim()\<close>, written last, rewrites the value after them.
\<close>

definition z_string :: "nat \<Rightarrow> nat option \<Rightarrow> bool \<Rightarrow> seg list \<Rightarrow> json option \<Rightarrow> string parsed" where
  "z_string lo hi tr p v =
     (case v of
        Some (JString s) \<Rightarrow>
          (let small = (if length s < lo then [Issue too_small p] else []);
               big = (case hi of
                        None \<Rightarrow> []
                      | Some h \<Rightarrow> if h < length s then [Issue too_big p] else [])
           in if small @ big = [] then Inr (if tr then trim s else s) else Inl (small @ big))
      | _ \<Rightarrow> Inl [Issue invalid_type p])"

text \<open>\<open>.optional()\<close>: \<open>undefined\<close> passes as it is, anything else goes to the inner schema.\<close>

definition z_optional :: "(seg list \<Rightarrow> json option \<Rightarrow> 'a parsed) \<Rightarrow> seg list \<Rightarrow> json option \<Rightarrow> 'a option parsed" where
  "z_optional inner p v =
     (case v of
        None \<Rightarrow> Inr None
      | Some x \<Rightarrow> (case inner p (Some x) of Inl is \<Rightarrow> Inl is | Inr y \<Rightarrow> Inr (Some y)))"

text \<open>The outputs of the elements of an array, or all their issues.\<close>

fun collect :: "'a parsed list \<Rightarrow> 'a list parsed" where
  "collect [] = Inr []"
| "collect (r # rs) =
     (case (r, collect rs) of
        (Inr x, Inr xs) \<Rightarrow> Inr (x # xs)
      | (a, b) \<Rightarrow> Inl (issues a @ issues b))"

text \<open>\<open>z.array(elem).min(lo).max(hi)\<close>: every element is parsed at its index.\<close>

definition z_array :: "(seg list \<Rightarrow> json option \<Rightarrow> 'a parsed) \<Rightarrow> nat \<Rightarrow> nat \<Rightarrow> seg list \<Rightarrow> json option \<Rightarrow> 'a list parsed" where
  "z_array elem lo hi p v =
     (case v of
        Some (JArray xs) \<Rightarrow>
          (let rs = collect (map (\<lambda>(i, x). elem (p @ [Idx i]) (Some x)) (enumerate 0 xs));
               small = (if length xs < lo then [Issue too_small p] else []);
               big = (if hi < length xs then [Issue too_big p] else [])
           in if issues rs @ small @ big = [] then rs else Inl (issues rs @ small @ big))
      | _ \<Rightarrow> Inl [Issue invalid_type p])"

text \<open>
  \<^verbatim>\<open>
  export const experienceLevelEnum = z.enum(['beginner', 'intermediate', 'advanced'])
  export const aiPromptSchema = z.object({
    userBackground: z.string().min(10, ...).max(2000, ...).trim(),
    currentGoals: z.string().max(1000, ...).trim().optional(),
    experienceLevel: experienceLevelEnum,
  })
  \<close>
\<close>

datatype ExperienceLevel = beginner | intermediate | advanced

definition experienceLevelEnum :: "seg list \<Rightarrow> json option \<Rightarrow> ExperienceLevel parsed" where
  "experienceLevelEnum p v =
     (if v = Some (JString ''beginner'') then Inr beginner
      else if v = Some (JString ''intermediate'') then Inr intermediate
      else if v = Some (JString ''advanced'') then Inr advanced
      else Inl [Issue invalid_value p])"

record AiPromptInput =
  userBackground :: string
  currentGoals :: "string option"
  experienceLevel :: ExperienceLevel

definition aiPromptSchema :: "seg list \<Rightarrow> json option \<Rightarrow> AiPromptInput parsed" where
  "aiPromptSchema p v =
     (case v of
        Some (JObject kvs) \<Rightarrow>
          (let b = z_string 10 (Some 2000) True (p @ [Key ''userBackground''])
                     (map_of kvs ''userBackground'');
               g = z_optional (z_string 0 (Some 1000) True) (p @ [Key ''currentGoals''])
                     (map_of kvs ''currentGoals'');
               l = experienceLevelEnum (p @ [Key ''experienceLevel''])
                     (map_of kvs ''experienceLevel'')
           in case (b, g, l) of
                (Inr b', Inr g', Inr l') \<Rightarrow>
                  Inr \<lparr>userBackground = b', currentGoals = g', experienceLevel = l'\<rparr>
              | _ \<Rightarrow> Inl (issues b @ issues g @ issues l))
      | _ \<Rightarrow> Inl [Issue invalid_type p])"

text \<open>
  \<^verbatim>\<open>
  export const suggestionSchema = z.object({
    title: z.string().min(1, 'Title is required'),
    reason: z.string().min(1, 'Reason is required'),
    action: z.string().min(1, 'Action is required'),
  })
  export const aiResponseSchema = z.object({
    suggestions: z.array(suggestionSchema).min(1).max(10),
  })
  \<close>
  An object schema keeps the keys of its shape and drops the others.
\<close>

record Suggestion =
  title :: string
  reason :: string
  action :: string

definition suggestionSchema :: "seg list \<Rightarrow> json option \<Rightarrow> Suggestion parsed" where
  "suggestionSchema p v =
     (case v of
        Some (JObject kvs) \<Rightarrow>
          (let t = z_string 1 None False (p @ [Key ''title'']) (map_of kvs ''title'');
               r = z_string 1 None False (p @ [Key ''reason'']) (map_of kvs ''reason'');
               a = z_string 1 None False (p @ [Key ''action'']) (map_of kvs ''action'')
           in case (t, r, a) of
                (Inr t', Inr r', Inr a') \<Rightarrow> Inr \<lparr>title = t', reason = r', action = a'\<rparr>
              | _ \<Rightarrow> Inl (issues t @ issues r @ issues a))
      | _ \<Rightarrow> Inl [Issue invalid_type p])"

record AiResponse =
  suggestions :: "Suggestion list"

definition aiResponseSchema :: "seg list \<Rightarrow> json option \<Rightarrow> AiResponse parsed" where
  "aiResponseSchema p v =
     (case v of
        Some (JObject kvs) \<Rightarrow>
          (case z_array suggestionSchema 1 10 (p @ [Key ''suggestions''])
                  (map_of kvs ''suggestions'') of
             Inl is \<Rightarrow> Inl is
           | Inr xs \<Rightarrow> Inr \<lparr>suggestions = xs\<rparr>)
      | _ \<Rightarrow> Inl [Issue invalid_type p])"

text \<open>
  Everything thrown in the modelled code:
  \<^item> \<open>ValidationFailed\<close>: the \<open>Error('Validation failed: ...')\<close> of \<open>validate\<close>;
  \<^item> \<open>ZodError\<close>: thrown by \<open>schema.parse\<close>;
  \<^item> \<open>SyntaxError\<close>: thrown by \<open>JSON.parse\<close> and \<open>req.json()\<close>;
  \<^item> \<open>NoJsonFound\<close>: the \<open>Error('No JSON found in response')\<close> of \<open>parseSuggestions\<close>;
  \<^item> \<open>GatewayError\<close>: the OpenAI call rejects (authentication, quota, network, timeout);
  \<^item> \<open>TypeError\<close>: a property of \<open>undefined\<close> is read;
  \<^item> \<open>MissingSupabaseEnv\<close>: thrown by \<open>createServiceClient\<close>;
  \<^item> \<open>NotAuthenticated\<close>, \<open>SuggestionNotFound\<close>, \<open>PostgrestError\<close>: thrown by the query helpers.
\<close>

datatype exn =
    ValidationFailed "issue list"
  | ZodError "issue list"
  | SyntaxError
  | NoJsonFound
  | GatewayError
  | TypeError
  | MissingSupabaseEnv
  | NotAuthenticated
  | SuggestionNotFound
  | PostgrestError

text \<open>
  \<^verbatim>\<open>
  export function validate<T>(schema: z.ZodSchema<T>, data: unknown): T {
    const result = schema.safeParse(data)
    if (!result.success) {
      const errors = result.error.issues.map(err => `${err.path.join('.')}: ${err.message}`)
      throw new Error(`Validation failed: ${errors.join(', ')}`)
    }
    return result.data
  }
  \<close>
\<close>

definition validate :: "(seg list \<Rightarrow> json option \<Rightarrow> 'a parsed) \<Rightarrow> json \<Rightarrow> exn + 'a" where
  "validate schema data =
     (case schema [] (Some data) of
        Inl is \<Rightarrow> Inl (ValidationFailed is)
      | Inr d \<Rightarrow> Inr d)"

text \<open>\<open>schema.parse(data)\<close> throws the \<open>ZodError\<close> itself.\<close>

definition zod_parse :: "(seg list \<Rightarrow> json option \<Rightarrow> 'a parsed) \<Rightarrow> json \<Rightarrow> exn + 'a" where
  "zod_parse schema data =
     (case schema [] (Some data) of
        Inl is \<Rightarrow> Inl (ZodError is)
      | Inr d \<Rightarrow> Inr d)"

section \<open>\<open>JSON.parse\<close>\<close>

text \<open>
  \<open>JSON.parse\<close> is a built-in of the language, not code of the repository. It is modelled
  by a recursive-descent parser of the JSON grammar (ECMA-404): \<open>None\<close> is the thrown
  \<open>SyntaxError\<close>. A \<open>\u\<close> escape of a code unit above 255 is outside the string model and
  is refused. A repeated key keeps its last value, at the place of its first occurrence.
  The recursion runs on fuel: every value and every list of elements or members costs
  one unit on top of what its parts cost, and \<open>JSON_parse\<close> gives enough of it
  (\<open>JSON_parse_fuel\<close> below). The theorems about \<open>validate_candidate\<close> and
  \<open>parseSuggestions\<close> for all inputs do not look into the parser: they hold whatever
  \<open>JSON.parse\<close> returns. The examples evaluate it.
\<close>

definition isJsonWs :: "char \<Rightarrow> bool" where
  "isJsonWs c = (c = CHR 0x20 \<or> c = CHR 0x09 \<or> c = CHR 0x0A \<or> c = CHR 0x0D)"

definition isDigit :: "char \<Rightarrow> bool" where
  "isDigit c = (48 \<le> (of_char c :: nat) \<and> (of_char c :: nat) \<le> 57)"

definition digitsVal :: "string \<Rightarrow> nat" where
  "digitsVal ds = foldl (\<lambda>a c. 10 * a + (of_char c - 48)) 0 ds"

definition hexVal :: "char \<Rightarrow> nat option" where
  "hexVal c =
     (let n = (of_char c :: nat)
      in if 48 \<le> n \<and> n \<le> 57 then Some (n - 48)
         else if 65 \<le> n \<and> n \<le> 70 then Some (n - 55)
         else if 97 \<le> n \<and> n \<le> 102 then Some (n - 87)
         else None)"

definition unescape :: "char \<Rightarrow> char option" where
  "unescape e =
     (if e = CHR 0x22 \<or> e = CHR 0x5C \<or> e = CHR ''/'' then Some e
      else if e = CHR ''b'' then Some (CHR 0x08)
      else if e = CHR ''f'' then Some (CHR 0x0C)
      else if e = CHR ''n'' then Some (CHR 0x0A)
      else if e = CHR ''r'' then Some (CHR 0x0D)
      else if e = CHR ''t'' then Some (CHR 0x09)
      else None)"

fun parse_chars :: "string \<Rightarrow> (string \<times> string) option" where
  "parse_chars [] = None"
| "parse_chars (c # cs) =
     (if c = CHR 0x22 then Some ([], cs)
      else if c = CHR 0x5C then
        (case cs of
           [] \<Rightarrow> None
         | e # cs' \<Rightarrow>
             if e = CHR ''u'' then
               (case cs' of
                  h1 # h2 # h3 # h4 # rest \<Rightarrow>
                    (case (hexVal h1, hexVal h2, hexVal h3, hexVal h4) of
                       (Some a, Some b, Some c', Some d) \<Rightarrow>
                         (let n = ((a * 16 + b) * 16 + c') * 16 + d
                          in if n < 256
                             then map_option (\<lambda>(s, r). (char_of n # s, r)) (parse_chars rest)
                             else None)
                     | _ \<Rightarrow> None)
                | _ \<Rightarrow> None)
             else (case unescape e of
                     None \<Rightarrow> None
                   | Some x \<Rightarrow> map_option (\<lambda>(s, r). (x # s, r)) (parse_chars cs')))
      else if (of_char c :: nat) < 32 then None
      else map_option (\<lambda>(s, r). (c # s, r)) (parse_chars cs))"

definition parse_number :: "string \<Rightarrow> (json \<times> string) option" where
  "parse_number s =
     (let neg = (case s of c # _ \<Rightarrow> c = CHR ''-'' | [] \<Rightarrow> False);
          s1 = (if neg then tl s else s);
          ds = takeWhile isDigit s1;
          s2 = dropWhile isDigit s1;
          hasFrac = (case s2 of c # _ \<Rightarrow> c = CHR ''.'' | [] \<Rightarrow> False);
          fs = (if hasFrac then takeWhile isDigit (tl s2) else []);
          s3 = (if hasFrac then dropWhile isDigit (tl s2) else s2);
          hasExp = (case s3 of c # _ \<Rightarrow> c = CHR ''e'' \<or> c = CHR ''E'' | [] \<Rightarrow> False);
          s4 = (if hasExp then tl s3 else s3);
          eneg = (hasExp \<and> (case s4 of c # _ \<Rightarrow> c = CHR ''-'' | [] \<Rightarrow> False));
          epos = (hasExp \<and> (case s4 of c # _ \<Rightarrow> c = CHR ''+'' | [] \<Rightarrow> False));
          s5 = (if eneg \<or> epos then tl s4 else s4);
          es = (if hasExp then takeWhile isDigit s5 else []);
          s6 = (if hasExp then dropWhile isDigit s5 else s5);
          m = int (digitsVal (ds @ fs));
          e = int (digitsVal es)
      in if ds = [] \<or> (1 < length ds \<and> hd ds = CHR ''0'') \<or> (hasFrac \<and> fs = []) \<or> (hasExp \<and> es = [])
         then None
         else Some (JNumber (if neg then - m else m) ((if eneg then - e else e) - int (length fs)), s6))"

definition mk_object :: "(string \<times> json) list \<Rightarrow> json" where
  "mk_object ms = JObject (foldl (\<lambda>acc (k, v). AList.update k v acc) [] ms)"

fun parse_value :: "nat \<Rightarrow> string \<Rightarrow> (json \<times> string) option"
  and parse_elements :: "nat \<Rightarrow> string \<Rightarrow> (json list \<times> string) option"
  and parse_members :: "nat \<Rightarrow> string \<Rightarrow> ((string \<times> json) list \<times> string) option"
where
  "parse_value 0 s = None"
| "parse_value (Suc n) s =
     (case dropWhile isJsonWs s of
        [] \<Rightarrow> None
      | c # cs \<Rightarrow>
          if c = CHR ''{'' then
            (case dropWhile isJsonWs cs of
               [] \<Rightarrow> None
             | d # r \<Rightarrow>
                 if d = CHR ''}'' then Some (JObject [], r)
                 else map_option (\<lambda>(ms, r'). (mk_object ms, r')) (parse_members n cs))
          else if c = CHR ''['' then
            (case dropWhile isJsonWs cs of
               [] \<Rightarrow> None
             | d # r \<Rightarrow>
                 if d = CHR '']'' then Some (JArray [], r)
                 else map_option (\<lambda>(vs, r'). (JArray vs, r')) (parse_elements n cs))
          else if c = CHR 0x22 then map_option (\<lambda>(x, r). (JString x, r)) (parse_chars cs)
          else if prefix ''true'' (c # cs) then Some (JBool True, drop 4 (c # cs))
          else if prefix ''false'' (c # cs) then Some (JBool False, drop 5 (c # cs))
          else if prefix ''null'' (c # cs) then Some (JNull, drop 4 (c # cs))
          else parse_number (c # cs))"
| "parse_elements 0 s = None"
| "parse_elements (Suc n) s =
     (case parse_value n s of
        None \<Rightarrow> None
      | Some (v, r) \<Rightarrow>
          (case dropWhile isJsonWs r of
             [] \<Rightarrow> None
           | c # r' \<Rightarrow>
               if c = CHR '','' then map_option (\<lambda>(vs, r''). (v # vs, r'')) (parse_elements n r')
               else if c = CHR '']'' then Some ([v], r')
               else None))"
| "parse_members 0 s = None"
| "parse_members (Suc n) s =
     (case dropWhile isJsonWs s of
        [] \<Rightarrow> None
      | q # s1 \<Rightarrow>
          if q \<noteq> CHR 0x22 then None
          else
            (case parse_chars s1 of
               None \<Rightarrow> None
             | Some (k, s2) \<Rightarrow>
                 (case dropWhile isJsonWs s2 of
                    [] \<Rightarrow> None
                  | colon # s3 \<Rightarrow>
                      if colon \<noteq> CHR '':'' then None
                      else
                        (case parse_value n s3 of
                           None \<Rightarrow> None
                         | Some (v, s4) \<Rightarrow>
                             (case dropWhile isJsonWs s4 of
                                [] \<Rightarrow> None
                              | c # r' \<Rightarrow>
                                  if c = CHR '','' then
                                    map_option (\<lambda>(ms, r''). ((k, v) # ms, r'')) (parse_members n r')
                                  else if c = CHR ''}'' then Some ([(k, v)], r')
                                  else None)))))"

definition JSON_parse :: "string \<Rightarrow> json option" where
  "JSON_parse s =
     (case parse_value (2 * length s + 2) s of
        None \<Rightarrow> None
      | Some (v, r) \<Rightarrow> if dropWhile isJsonWs r = [] then Some v else None)"

section \<open>\<open>parseSuggestions\<close> (src/docs/ai-integration.md, Step 4)\<close>

text \<open>
  \<^verbatim>\<open>
  function parseSuggestions(rawResponse: string): Suggestion[] {
    try {
      // Remove markdown code blocks if present
      let cleaned = rawResponse.trim()
      // Remove ```json and ``` if they exist
      cleaned = cleaned.replace(/```json\n?/g, '')
      cleaned = cleaned.replace(/```\n?/g, '')
      // Extract JSON object
      const jsonMatch = cleaned.match(/\{[\s\S]*\}/)
      if (!jsonMatch) {
        throw new Error('No JSON found in response')
      }
      // Parse JSON
      const parsed = JSON.parse(jsonMatch[0])
      // Validate structure with Zod
      const validated = aiResponseSchema.parse(parsed)
      return validated.suggestions
    } catch (error) {
      console.error('Failed to parse AI response:', error)
      console.error('Raw response:', rawResponse)
      // Return fallback suggestions
      return [
        {
          title: 'Start with Fundamentals',
          reason: 'Building a strong foundation is crucial for long-term growth as a developer.',
          action: 'Complete one online tutorial on core programming concepts this week.',
        },
      ]
    }
  }
  \<close>
  The two regular expressions are translated into the functions they compute. Logging
  is not modelled.

  \<open>s.replace(/lit\n?/g, '')\<close> for a literal \<open>lit\<close>: the text is scanned from the left; where
  \<open>lit\<close> starts, it and one line feed after it, if there is one, are dropped and the scan
  goes on behind them; any other character is kept.
\<close>

definition dropNewline :: "string \<Rightarrow> string" where
  "dropNewline s = (case s of [] \<Rightarrow> [] | c # r \<Rightarrow> if c = CHR 0x0A then r else s)"

function removeFence :: "string \<Rightarrow> string \<Rightarrow> string" where
  "removeFence lit [] = []"
| "removeFence lit (c # cs) =
     (if lit \<noteq> [] \<and> prefix lit (c # cs)
      then removeFence lit (dropNewline (drop (length lit) (c # cs)))
      else c # removeFence lit cs)"
  by pat_completeness auto
termination
proof (relation "measure (\<lambda>(lit, s). length s)")
  show "wf (measure (\<lambda>(lit, s). length s))"
    by simp
next
  fix lit :: string and c :: char and cs :: string
  assume a: "lit \<noteq> [] \<and> prefix lit (c # cs)"
  have "length (dropNewline t) \<le> length t" for t
    by (simp add: dropNewline_def split: list.splits)
  then have "length (dropNewline (drop (length lit) (c # cs))) \<le> length (c # cs) - length lit"
    by (metis length_drop)
  moreover obtain n where "length lit = Suc n"
    using a by (cases lit) auto
  ultimately have "length (dropNewline (drop (length lit) (c # cs))) < length (c # cs)"
    by simp
  then show "((lit, dropNewline (drop (length lit) (c # cs))), (lit, c # cs))
      \<in> measure (\<lambda>(lit, s). length s)"
    by simp
next
  fix lit :: string and c :: char and cs :: string
  show "((lit, cs), (lit, c # cs)) \<in> measure (\<lambda>(lit, s). length s)"
    by simp
qed

text \<open>
  \<open>s.match(/\{[\s\S]*\}/)\<close>: the match starts at the leftmost \<open>{\<close> from which the rest of
  the expression can match; \<open>[\s\S]*\<close> is greedy, so the match runs to the last \<open>}\<close>
  behind that brace. \<open>greedyClose cs\<close> is \<open>cs\<close> up to its last \<open>}\<close>, and empty when \<open>cs\<close>
  has none.
\<close>

definition greedyClose :: "string \<Rightarrow> string" where
  "greedyClose cs = rev (dropWhile (\<lambda>c. c \<noteq> CHR ''}'') (rev cs))"

fun matchBraces :: "string \<Rightarrow> string option" where
  "matchBraces [] = None"
| "matchBraces (c # cs) =
     (if c = CHR ''{'' \<and> greedyClose cs \<noteq> [] then Some (c # greedyClose cs)
      else matchBraces cs)"

text \<open>
  The try block in three parts: the text after \<open>trim\<close> and the two replacements; the
  match, which the specification calls the Response Normalizer; and \<open>JSON.parse\<close> followed
  by \<open>aiResponseSchema.parse\<close>, which the specification calls the Schema Validator.
\<close>

definition cleaned :: "string \<Rightarrow> string" where
  "cleaned rawResponse = removeFence ''```'' (removeFence ''```json'' (trim rawResponse))"

definition normalize_response :: "string \<Rightarrow> exn + string" where
  "normalize_response rawResponse =
     (case matchBraces (cleaned rawResponse) of
        None \<Rightarrow> Inl NoJsonFound
      | Some jsonMatch \<Rightarrow> Inr jsonMatch)"

definition validate_candidate :: "string \<Rightarrow> exn + Suggestion list" where
  "validate_candidate candidate =
     (case JSON_parse candidate of
        None \<Rightarrow> Inl SyntaxError
      | Some parsed \<Rightarrow>
          (case zod_parse aiResponseSchema parsed of
             Inl e \<Rightarrow> Inl e
           | Inr validated \<Rightarrow> Inr (suggestions validated)))"

definition parseSuggestions_try :: "string \<Rightarrow> exn + Suggestion list" where
  "parseSuggestions_try rawResponse =
     (case normalize_response rawResponse of
        Inl e \<Rightarrow> Inl e
      | Inr jsonMatch \<Rightarrow> validate_candidate jsonMatch)"

text \<open>The literal of the catch block, and the whole function.\<close>

definition fallbackSuggestions :: "Suggestion list" where
  "fallbackSuggestions =
     [\<lparr>title = ''Start with Fundamentals'',
       reason = ''Building a strong foundation is crucial for long-term growth as a developer.'',
       action = ''Complete one online tutorial on core programming concepts this week.''\<rparr>]"

definition parseSuggestions :: "string \<Rightarrow> Suggestion list" where
  "parseSuggestions rawResponse =
     (case parseSuggestions_try rawResponse of
        Inr s \<Rightarrow> s
      | Inl e \<Rightarrow> fallbackSuggestions)"


text \<open>
  The acceptance condition of the Schema Validator in the specification's words, without
  the trimming: the element is an object whose \<open>title\<close>, \<open>reason\<close> and \<open>action\<close> are
  strings of at least one character, and the item carries exactly these three strings.
\<close>

fun element_ok :: "json \<Rightarrow> Suggestion \<Rightarrow> bool" where
  "element_ok (JObject fs) it =
     (map_of fs ''title'' = Some (JString (title it)) \<and> title it \<noteq> [] \<and>
      map_of fs ''reason'' = Some (JString (reason it)) \<and> reason it \<noteq> [] \<and>
      map_of fs ''action'' = Some (JString (action it)) \<and> action it \<noteq> [])"
| "element_ok _ it = False"

text \<open>
  The Response Normalizer in the specification's words (section 4.2), for comparison with
  \<open>normalize_response\<close>: trim; if the text starts and ends with a code-fence marker, remove the
  pair; take the text from the first \<open>{\<close> to the last \<open>}\<close>; fail when there is no such
  pair of braces.
\<close>

definition stripPairedFence :: "string \<Rightarrow> string" where
  "stripPairedFence t =
     (if 6 \<le> length t \<and> prefix ''```'' t \<and> suffix ''```'' t
      then take (length t - 6) (drop 3 t)
      else t)"

definition normalize_spec :: "string \<Rightarrow> exn + string" where
  "normalize_spec raw =
     (let t = stripPairedFence (trim raw);
          i = length (takeWhile (\<lambda>c. c \<noteq> CHR ''{'') t);
          k = length (takeWhile (\<lambda>c. c \<noteq> CHR ''}'') (rev t))
      in if CHR ''{'' \<in> set t \<and> CHR ''}'' \<in> set t \<and> i + k < length t
         then Inr (take (length t - k - i) (drop i t))
         else Inl NoJsonFound)"

section \<open>The \<open>profile_suggestions\<close> table\<close>

text \<open>
  \<^verbatim>\<open>
  create table public.profile_suggestions (
    id uuid primary key default uuid_generate_v4(),
    user_id uuid references auth.users(id) on delete cascade not null,
    suggestions jsonb not null,
    input_data jsonb not null,
    created_at timestamp with time zone default timezone('utc'::text, now()) not null,
    viewed_at timestamp with time zone,
    completed_suggestions jsonb default '[]'::jsonb,
    rating integer check (rating >= 1 and rating <= 5)
  );
  export interface CompletedSuggestion {
    suggestionId: string
    completedAt: string
    notes?: string
  }
  \<close>
  The columns \<open>id\<close> and \<open>suggestions\<close> are the fields \<open>row_id\<close> and \<open>row_suggestions\<close>,
  and \<open>notes\<close> of a completion is \<open>notes_text\<close>. A
  point in time is its number of milliseconds since the epoch. The table is the list of
  its rows; a query without an order returns the rows in the order of the list.
\<close>

record CompletedSuggestion =
  suggestionId :: string
  completedAt :: string
  notes_text :: "string option"

record row =
  row_id :: string
  user_id :: string
  row_suggestions :: json
  input_data :: json
  created_at :: int
  viewed_at :: "int option"
  completed_suggestions :: "CompletedSuggestion list option"
  rating :: "int option"

text \<open>
  \<open>.single()\<close>: the one row of the result, and \<open>data: null\<close> with the error \<open>PGRST116\<close>
  when the result has no row or several.
\<close>

fun single :: "'a list \<Rightarrow> 'a option" where
  "single [x] = Some x"
| "single _ = None"

section \<open>The endpoint \<open>POST /api/profile/suggestions\<close> (src/docs/ai-integration.md)\<close>

text \<open>The values stored and returned as JSON.\<close>

definition levelName :: "ExperienceLevel \<Rightarrow> string" where
  "levelName l =
     (case l of beginner \<Rightarrow> ''beginner'' | intermediate \<Rightarrow> ''intermediate''
      | advanced \<Rightarrow> ''advanced'')"

definition Suggestion_to_json :: "Suggestion \<Rightarrow> json" where
  "Suggestion_to_json s =
     JObject [(''title'', JString (title s)), (''reason'', JString (reason s)),
              (''action'', JString (action s))]"

definition AiPromptInput_to_json :: "AiPromptInput \<Rightarrow> json" where
  "AiPromptInput_to_json d =
     JObject ([(''userBackground'', JString (userBackground d))] @
              (case currentGoals d of None \<Rightarrow> [] | Some g \<Rightarrow> [(''currentGoals'', JString g)]) @
              [(''experienceLevel'', JString (levelName (experienceLevel d)))])"

text \<open>
  Step 2, \<open>buildProfileSuggestionPrompt\<close>: a template literal, trimmed. An empty
  \<open>currentGoals\<close> is falsy and leaves its line empty.
\<close>

definition unlines :: "string list \<Rightarrow> string" where
  "unlines ls = concat (map (\<lambda>l. l @ [CHR 0x0A]) ls)"

definition buildProfileSuggestionPrompt :: \<open>AiPromptInput \<Rightarrow> string\<close> where
  \<open>buildProfileSuggestionPrompt data =
     trim (unlines
       ['''',
        ''I'm a '' @ levelName (experienceLevel data) @
          '' software engineer who wants to improve my skills.'',
        '''',
        ''Background: '' @ userBackground data,
        (case currentGoals data of
           None \<Rightarrow> ''''
         | Some g \<Rightarrow> if g = [] then '''' else ''Current Goals: '' @ g),
        '''',
        ''Based on this information, suggest 3-5 specific things I should focus on to grow as a developer.'',
        '''',
        ''For each suggestion, provide:'',
        ''1. Title: Name of the skill or area'',
        ''2. Reason: Why it's relevant to my specific background'',
        ''3. Action: One concrete step I can take THIS WEEK'',
        '''',
        ''IMPORTANT: Return ONLY valid JSON in this exact format, with no markdown or extra text:'',
        '''',
        ''{'',
        ''  "suggestions": ['',
        ''    {'',
        ''      "title": "Skill name",'',
        ''      "reason": "Why this matters for your background",'',
        ''      "action": "Specific action you can take this week"'',
        ''    }'',
        ''  ]'',
        ''}''])\<close>

text \<open>
  Cost optimization 1, rate limiting:
  \<^verbatim>\<open>
  // Only allow 1 suggestion per user per day
  const { data: recentSuggestion } = await supabase
    .from('profile_suggestions')
    .select('created_at')
    .eq('user_id', user.id)
    .gte('created_at', new Date(Date.now() - 24 * 60 * 60 * 1000).toISOString())
    .limit(1)
    .single()
  if (recentSuggestion) {
    return NextResponse.json({ error: 'You can only get suggestions once per day' }, { status: 429 })
  }
  \<close>
\<close>

definition recentSuggestion :: "row list \<Rightarrow> string \<Rightarrow> int \<Rightarrow> int option" where
  "recentSuggestion tbl uid t =
     single (take 1 (map created_at
       (filter (\<lambda>r. user_id r = uid \<and> t - 24 * 60 * 60 * 1000 \<le> created_at r) tbl)))"

text \<open>
  Cost optimization 2, caching similar requests:
  \<^verbatim>\<open>
  // Check if similar suggestions exist
  const { data: cachedSuggestions } = await supabase
    .from('profile_suggestions')
    .select('suggestions')
    .eq('input_data->experienceLevel', validated.experienceLevel)
    .ilike('input_data->userBackground', `%${firstFewWords}%`)
    .limit(1)
    .single()
  if (cachedSuggestions) {
    return NextResponse.json({
      success: true,
      suggestions: cachedSuggestions.suggestions,
      cached: true,
    })
  }
  \<close>
  The snippet does not define \<open>firstFewWords\<close>: it is a parameter here.

  The column is \<open>input_data jsonb not null\<close> (the migration
  \<open>create_profile_suggestions.sql\<close>). In a PostgREST filter the path
  \<open>input_data->experienceLevel\<close> is the SQL expression \<open>input_data->'experienceLevel'\<close>,
  whose value is of type \<open>jsonb\<close> (\<open>->>\<close> would give the text). So
  \<^item> \<open>.eq\<close> compares a \<open>jsonb\<close> value with the literal, which PostgreSQL reads with the
    input function of \<open>jsonb\<close>: a literal that is not a JSON text is the error
    \<open>invalid_text_representation\<close> (SQLSTATE 22P02);
  \<^item> \<open>.ilike\<close> applies \<open>ILIKE\<close> to a \<open>jsonb\<close> value, and there is no such operator: the
    error \<open>undefined_function\<close> (SQLSTATE 42883), whatever the pattern.
  Both errors belong to the statement, not to a row: they arise on an empty table too.
  The client does not throw: a query with an error resolves to \<open>data: null\<close> with the
  error beside it, which the snippet does not read.
\<close>

datatype pg_error = invalid_text_representation | undefined_function

definition jsonb_in :: "string \<Rightarrow> pg_error + json" where
  "jsonb_in literal =
     (case JSON_parse literal of
        None \<Rightarrow> Inl invalid_text_representation
      | Some j \<Rightarrow> Inr j)"

text \<open>
  A filter is an error of the statement or a test of the value at the path (\<open>None\<close> is
  SQL's \<open>NULL\<close>, the value of a path that the object does not have).
\<close>

definition eq_jsonb :: "string \<Rightarrow> pg_error + (json option \<Rightarrow> bool)" where
  "eq_jsonb literal =
     (case jsonb_in literal of
        Inl err \<Rightarrow> Inl err
      | Inr j \<Rightarrow> Inr (\<lambda>v. v = Some j))"

definition ilike_jsonb :: "string \<Rightarrow> pg_error + (json option \<Rightarrow> bool)" where
  "ilike_jsonb pattern = Inl undefined_function"

definition similarRows :: "row list \<Rightarrow> AiPromptInput \<Rightarrow> string \<Rightarrow> pg_error + row list" where
  "similarRows tbl validated firstFewWords =
     (case eq_jsonb (levelName (experienceLevel validated)) of
        Inl err \<Rightarrow> Inl err
      | Inr sameLevel \<Rightarrow>
          (case ilike_jsonb (''%'' @ firstFewWords @ ''%'') of
             Inl err \<Rightarrow> Inl err
           | Inr similar \<Rightarrow>
               Inr (filter (\<lambda>r. sameLevel (field (input_data r) ''experienceLevel'') \<and>
                                similar (field (input_data r) ''userBackground'')) tbl)))"

definition cachedSuggestions :: "row list \<Rightarrow> AiPromptInput \<Rightarrow> string \<Rightarrow> json option" where
  "cachedSuggestions tbl validated firstFewWords =
     (case similarRows tbl validated firstFewWords of
        Inl err \<Rightarrow> None
      | Inr rows \<Rightarrow> single (take 1 (map row_suggestions rows)))"

text \<open>
  What a request meets outside the handler:
  \<^item> \<open>now\<close>: the clock, read once for the request (\<open>Date.now()\<close>, the column default
    \<open>now()\<close> and \<open>new Date()\<close>);
  \<^item> \<open>toISOString\<close>: the ISO text of a point in time;
  \<^item> \<open>supabase_env\<close>: both Supabase environment variables are set, so \<open>createServiceClient\<close>
    does not throw;
  \<^item> \<open>auth_user\<close>: the id of the user of \<open>supabase.auth.getUser()\<close>, \<open>None\<close> when it
    reports an error or no user;
  \<^item> \<open>openai\<close>: \<open>openai.chat.completions.create\<close> on the prompt; it throws, or returns
    the \<open>message.content\<close> of each choice (\<open>None\<close> for \<open>null\<close>);
  \<^item> \<open>insert_error\<close>: the insert reports an error and stores nothing;
  \<^item> \<open>new_row_id\<close>: the id the table gives the new row;
  \<^item> \<open>firstFewWords\<close>: the variable of that name in the caching snippet.
  The read of the rate limit does not fail.
\<close>

record env =
  now :: int
  toISOString :: "int \<Rightarrow> string"
  supabase_env :: bool
  auth_user :: "string option"
  openai :: "string \<Rightarrow> exn + string option list"
  insert_error :: bool
  new_row_id :: string
  firstFewWords :: string

text \<open>The table, and how often a handler has called the completion client so far.\<close>

record world =
  profile_suggestions :: "row list"
  openai_calls :: nat

record response =
  status :: nat
  body :: json

text \<open>
  Steps 1 to 6 of the guide, with the two early returns of the cost optimizations where
  the guide's variables allow them: both read \<open>user\<close> and \<open>validated\<close> of Step 1 and
  return before the model is called, in the order the guide lists them.
  \<^verbatim>\<open>
  export async function POST(req: Request) {
    try {
      const body = await req.json()
      const validated = validate(aiPromptSchema, body)
      const supabase = createServiceClient()
      const { data: { user }, error } = await supabase.auth.getUser()
      if (error || !user) {
        return NextResponse.json({ error: 'Unauthorized' }, { status: 401 })
      }
      // (rate limiting)   (caching similar requests)
      const prompt = buildProfileSuggestionPrompt(validated)
      const completion = await openai.chat.completions.create({ ... })
      const aiResponse = completion.choices[0].message.content
      const suggestions = parseSuggestions(aiResponse || '')
      const { error: dbError } = await supabase.from('profile_suggestions').insert({
        user_id: user.id,
        suggestions: suggestions, // JSONB column
        input_data: validated, // Store what generated these
      })
      if (dbError) {
        console.error('Database error:', dbError)
        // Continue anyway - don't fail just because storage failed
      }
      return NextResponse.json({
        success: true,
        suggestions,
        metadata: {
          experienceLevel: validated.experienceLevel,
          timestamp: new Date().toISOString(),
        },
      })
    } catch (error) {
      // Handle errors...
    }
  }
  \<close>
  \<open>POST_try\<close> is the try block: \<open>Inl\<close> is what it throws, \<open>Inr\<close> the response it returns.
\<close>

text \<open>\<open>aiResponse || \<open>\<close>\<close>: a \<open>null\<close> content counts as the empty text.\<close>

definition orEmpty :: "string option \<Rightarrow> string" where
  "orEmpty aiResponse = (case aiResponse of None \<Rightarrow> [] | Some r \<Rightarrow> r)"

definition unauthorized :: response where
  "unauthorized = \<lparr>status = 401, body = JObject [(''error'', JString ''Unauthorized'')]\<rparr>"

definition oncePerDay :: response where
  "oncePerDay =
     \<lparr>status = 429,
      body = JObject [(''error'', JString ''You can only get suggestions once per day'')]\<rparr>"

definition cachedResponse :: "json \<Rightarrow> response" where
  "cachedResponse s =
     \<lparr>status = 200,
      body = JObject [(''success'', JBool True), (''suggestions'', s), (''cached'', JBool True)]\<rparr>"

definition successResponse :: "env \<Rightarrow> AiPromptInput \<Rightarrow> Suggestion list \<Rightarrow> response" where
  "successResponse e validated ss =
     \<lparr>status = 200,
      body = JObject
        [(''success'', JBool True),
         (''suggestions'', JArray (map Suggestion_to_json ss)),
         (''metadata'', JObject
            [(''experienceLevel'', JString (levelName (experienceLevel validated))),
             (''timestamp'', JString (toISOString e (now e)))])]\<rparr>"

definition newRow :: "env \<Rightarrow> string \<Rightarrow> AiPromptInput \<Rightarrow> Suggestion list \<Rightarrow> row" where
  "newRow e uid validated ss =
     \<lparr>row_id = new_row_id e, user_id = uid,
      row_suggestions = JArray (map Suggestion_to_json ss),
      input_data = AiPromptInput_to_json validated,
      created_at = now e, viewed_at = None, completed_suggestions = Some [],
      rating = None\<rparr>"

definition POST_try :: "env \<Rightarrow> world \<Rightarrow> json option \<Rightarrow> (exn + response) \<times> world" where
  "POST_try e w req =
     (case req of
        None \<Rightarrow> (Inl SyntaxError, w)
      | Some reqBody \<Rightarrow>
     (case validate aiPromptSchema reqBody of
        Inl x \<Rightarrow> (Inl x, w)
      | Inr validated \<Rightarrow>
     if \<not> supabase_env e then (Inl MissingSupabaseEnv, w)
     else
     (case auth_user e of
        None \<Rightarrow> (Inr unauthorized, w)
      | Some uid \<Rightarrow>
     (case recentSuggestion (profile_suggestions w) uid (now e) of
        Some recent \<Rightarrow> (Inr oncePerDay, w)
      | None \<Rightarrow>
     (case cachedSuggestions (profile_suggestions w) validated (firstFewWords e) of
        Some cached \<Rightarrow> (Inr (cachedResponse cached), w)
      | None \<Rightarrow>
     (let prompt = buildProfileSuggestionPrompt validated;
          w1 = w\<lparr>openai_calls := openai_calls w + 1\<rparr>
      in case openai e prompt of
           Inl x \<Rightarrow> (Inl x, w1)
         | Inr choices \<Rightarrow>
        (case choices of
           [] \<Rightarrow> (Inl TypeError, w1)
         | aiResponse # others \<Rightarrow>
             (let ss = parseSuggestions (orEmpty aiResponse);
                  w2 = (if insert_error e then w1
                        else w1\<lparr>profile_suggestions :=
                                 profile_suggestions w1 @ [newRow e uid validated ss]\<rparr>)
              in (Inr (successResponse e validated ss), w2)))))))))"

text \<open>
  The guide leaves the catch block open. The route file the guide is written for
  (\<open>POST\<close> of \<open>/api/profile/suggestions\<close>) has it:
  \<^verbatim>\<open>
  } catch (error) {
    // TODO: Handle different types of errors
    console.error('Profile suggestions error:', error)
    return NextResponse.json({ error: 'Failed to generate suggestions' }, { status: 500 })
  }
  \<close>
\<close>

definition failedToGenerate :: response where
  "failedToGenerate =
     \<lparr>status = 500, body = JObject [(''error'', JString ''Failed to generate suggestions'')]\<rparr>"

definition POST :: "env \<Rightarrow> world \<Rightarrow> json option \<Rightarrow> response \<times> world" where
  "POST e w req =
     (case POST_try e w req of
        (Inl x, w') \<Rightarrow> (failedToGenerate, w')
      | (Inr r, w') \<Rightarrow> (r, w'))"

text \<open>
  The request reaches the call of the model: it is valid, the user is known, no row of
  the user is recent and the cache lookup gives no record.
\<close>

definition generating :: "env \<Rightarrow> world \<Rightarrow> json \<Rightarrow> AiPromptInput \<Rightarrow> string \<Rightarrow> bool" where
  "generating e w reqBody validated uid \<longleftrightarrow>
     validate aiPromptSchema reqBody = Inr validated \<and> supabase_env e \<and>
     auth_user e = Some uid \<and>
     recentSuggestion (profile_suggestions w) uid (now e) = None \<and>
     cachedSuggestions (profile_suggestions w) validated (firstFewWords e) = None"

section \<open>\<open>queries.profileSuggestions\<close> (the Supabase client helpers)\<close>

text \<open>
  \<^verbatim>\<open>
  getById: async (id: string): Promise<ProfileSuggestion | null> => {
    const user = await getCurrentUser()
    if (!user) return null
    const supabase = createClient()
    const { data, error } = await supabase
      .from('profile_suggestions').select('*').eq('id', id).eq('user_id', user.id).single()
    if (error && error.code !== 'PGRST116') {
      throw error
    }
    return data as ProfileSuggestion | null
  },
  \<close>
  \<open>user\<close> is the id of the user \<open>getCurrentUser()\<close> returns, \<open>None\<close> for \<open>null\<close>.
\<close>

definition getById :: "string option \<Rightarrow> row list \<Rightarrow> string \<Rightarrow> row option" where
  "getById user tbl i =
     (case user of
        None \<Rightarrow> None
      | Some uid \<Rightarrow> single (filter (\<lambda>r. row_id r = i \<and> user_id r = uid) tbl))"

text \<open>
  \<^verbatim>\<open>
  markComplete: async (id: string, suggestionId: string, notes?: string) => {
    const user = await getCurrentUser()
    if (!user) throw new Error('Not authenticated')
    // First get current completed suggestions
    const current = await queries.profileSuggestions.getById(id)
    if (!current) throw new Error('Suggestion not found')
    const completedSuggestions: CompletedSuggestion[] = current.completed_suggestions || []
    // Check if already completed
    if (completedSuggestions.some(c => c.suggestionId === suggestionId)) {
      return current
    }
    // Add new completion
    completedSuggestions.push({
      suggestionId,
      completedAt: new Date().toISOString(),
      notes,
    })
    const supabase = createClient()
    const { data, error } = await supabase
      .from('profile_suggestions')
      .update({ completed_suggestions: completedSuggestions })
      .eq('id', id).eq('user_id', user.id).select().single()
    if (error) throw error
    return data as ProfileSuggestion
  },
  \<close>
  \<open>completedOf current\<close> is \<open>current.completed_suggestions || []\<close> and \<open>nowISO\<close> is
  \<open>new Date().toISOString()\<close>. The update writes the column in every row
  that has the id and the user and returns these rows; \<open>.single()\<close> reports an error
  unless there is exactly one.
\<close>

definition completedOf :: "row \<Rightarrow> CompletedSuggestion list" where
  "completedOf current =
     (case completed_suggestions current of None \<Rightarrow> [] | Some cs \<Rightarrow> cs)"

definition markComplete ::
  "string option \<Rightarrow> string \<Rightarrow> row list \<Rightarrow> string \<Rightarrow> string \<Rightarrow> string option \<Rightarrow>
     (exn + row) \<times> row list" where
  "markComplete user nowISO tbl i sid notes_arg =
     (case user of
        None \<Rightarrow> (Inl NotAuthenticated, tbl)
      | Some uid \<Rightarrow>
     (case getById user tbl i of
        None \<Rightarrow> (Inl SuggestionNotFound, tbl)
      | Some current \<Rightarrow>
     (let completedSuggestions = completedOf current
      in if list_ex (\<lambda>c. suggestionId c = sid) completedSuggestions then (Inr current, tbl)
         else
           (let pushed = completedSuggestions @
                   [\<lparr>suggestionId = sid, completedAt = nowISO, notes_text = notes_arg\<rparr>];
                tbl' = map (\<lambda>r. if row_id r = i \<and> user_id r = uid
                                  then r\<lparr>completed_suggestions := Some pushed\<rparr> else r) tbl
            in case single (filter (\<lambda>r. row_id r = i \<and> user_id r = uid) tbl') of
                 None \<Rightarrow> (Inl PostgrestError, tbl')
               | Some data \<Rightarrow> (Inr data, tbl')))))"

text \<open>The record with one completion appended, as the update stores it.\<close>

definition pushCompletion :: "row \<Rightarrow> string \<Rightarrow> string \<Rightarrow> string option \<Rightarrow> row" where
  "pushCompletion current sid nowISO notes_arg =
     current\<lparr>completed_suggestions :=
       Some (completedOf current @
         [\<lparr>suggestionId = sid, completedAt = nowISO, notes_text = notes_arg\<rparr>])\<rparr>"

section \<open>Example inputs\<close>

text \<open>
  A request of the guide's manual test, a user, an empty table and a completion service
  that answers with one well-formed suggestion.
\<close>

definition ex_env :: env where
  \<open>ex_env =
     \<lparr>now = 1767900000000, toISOString = (\<lambda>t. ''2026-01-08T19:20:00.000Z''),
      supabase_env = True, auth_user = Some ''user-1'',
      openai = (\<lambda>prompt. Inr [Some ''{"suggestions":[{"title":"A","reason":"B","action":"C"}]}'']),
      insert_error = False, new_row_id = ''row-1'', firstFewWords = ''career changer''\<rparr>\<close>

definition ex_world :: world where
  "ex_world = \<lparr>profile_suggestions = [], openai_calls = 0\<rparr>"

definition ex_body :: json where
  "ex_body =
     JObject [(''userBackground'', JString ''I am a career changer from marketing''),
              (''experienceLevel'', JString ''beginner'')]"

definition ex_input :: AiPromptInput where
  "ex_input =
     \<lparr>userBackground = ''I am a career changer from marketing'', currentGoals = None,
      experienceLevel = beginner\<rparr>"

text \<open>A stored record of the first user with no completion yet, and a record of another user.\<close>

definition ex_row :: row where
  "ex_row =
     \<lparr>row_id = ''row-1'', user_id = ''user-1'', row_suggestions = JArray [],
      input_data = JObject [], created_at = 1767900000000, viewed_at = None,
      completed_suggestions = Some [], rating = None\<rparr>"

definition ex_other :: row where
  "ex_other =
     \<lparr>row_id = ''row-2'', user_id = ''user-2'', row_suggestions = JArray [],
      input_data = JObject [], created_at = 1767900000000, viewed_at = None,
      completed_suggestions = None, rating = None\<rparr>"

section \<open>The fuel of \<open>JSON.parse\<close> is enough\<close>

text \<open>
  Every parser returns a rest shorter than its input, so a value needs at most
  \<open>2 * length s + 1\<close> units of fuel and a list of elements or members
  \<open>2 * length s + 2\<close>. Beyond that, more fuel gives the same result: \<open>JSON_parse\<close>
  never answers \<open>None\<close> for want of fuel.
\<close>

lemma parse_chars_shorter:
  "parse_chars s = Some (x, r) \<Longrightarrow> length r < length s"
proof (induction s arbitrary: x r rule: parse_chars.induct)
  case 1
  then show ?case by simp
next
  case (2 c cs)
  show ?case
  proof (cases "c = CHR 0x22")
    case True
    then show ?thesis using "2.prems" by simp
  next
    case nq: False
    show ?thesis
    proof (cases "c = CHR 0x5C")
      case False
      then obtain x' where ok: "\<not> (of_char c :: nat) < 32" "parse_chars cs = Some (x', r)"
        using "2.prems" nq by (auto split: if_splits)
      then have "length r < length cs"
        using "2.IH"(3) [OF nq False ok(1)] by simp
      then show ?thesis by simp
    next
      case True
      then obtain e cs' where cs: "cs = e # cs'"
        using "2.prems" nq by (cases cs) auto
      show ?thesis
      proof (cases "e = CHR ''u''")
        case False
        then obtain y x' where "unescape e = Some y" "parse_chars cs' = Some (x', r)"
          using "2.prems" nq True cs by (auto split: option.splits)
        then have "length r < length cs'"
          using "2.IH"(2) nq True cs False by blast
        then show ?thesis using cs by simp
      next
        case u: True
        then obtain h1 h2 h3 h4 rest where r4: "cs' = h1 # h2 # h3 # h4 # rest"
          using "2.prems" nq True cs by (auto split: list.splits)
        then obtain a b c' d x' where h: "hexVal h1 = Some a" "hexVal h2 = Some b"
            "hexVal h3 = Some c'" "hexVal h4 = Some d"
            "((a * 16 + b) * 16 + c') * 16 + d < 256" "parse_chars rest = Some (x', r)"
          using "2.prems" nq True cs u
          by (auto split: option.splits if_splits simp: Let_def)
        then have "length r < length rest"
          using "2.IH"(1) [OF nq True cs u r4] by (auto simp: Let_def)
        then show ?thesis using cs r4 by simp
      qed
    qed
  qed
qed


lemma parse_number_shorter:
  assumes "parse_number s = Some (v, r)"
  shows "length r < length s"
proof -
  define neg where "neg = (case s of c # _ \<Rightarrow> c = CHR ''-'' | [] \<Rightarrow> False)"
  define s1 where "s1 = (if neg then tl s else s)"
  define ds where "ds = takeWhile isDigit s1"
  define s2 where "s2 = dropWhile isDigit s1"
  define hasFrac where "hasFrac = (case s2 of c # _ \<Rightarrow> c = CHR ''.'' | [] \<Rightarrow> False)"
  define s3 where "s3 = (if hasFrac then dropWhile isDigit (tl s2) else s2)"
  define hasExp where
    "hasExp = (case s3 of c # _ \<Rightarrow> c = CHR ''e'' \<or> c = CHR ''E'' | [] \<Rightarrow> False)"
  define s4 where "s4 = (if hasExp then tl s3 else s3)"
  define eneg where
    "eneg = (hasExp \<and> (case s4 of c # _ \<Rightarrow> c = CHR ''-'' | [] \<Rightarrow> False))"
  define epos where
    "epos = (hasExp \<and> (case s4 of c # _ \<Rightarrow> c = CHR ''+'' | [] \<Rightarrow> False))"
  define s5 where "s5 = (if eneg \<or> epos then tl s4 else s4)"
  define s6 where "s6 = (if hasExp then dropWhile isDigit s5 else s5)"
  have "ds \<noteq> [] \<and> r = s6"
    using assms
    unfolding parse_number_def Let_def neg_def [symmetric] s1_def [symmetric]
      ds_def [symmetric] s2_def [symmetric] hasFrac_def [symmetric] s3_def [symmetric]
      hasExp_def [symmetric] s4_def [symmetric] eneg_def [symmetric] epos_def [symmetric]
      s5_def [symmetric] s6_def [symmetric]
    by (simp split: if_splits)
  moreover have "length s1 \<le> length s"
    by (simp add: s1_def)
  moreover have "length ds + length s2 = length s1"
    unfolding ds_def s2_def by (metis length_append takeWhile_dropWhile_id)
  moreover have "length s3 \<le> length s2"
    unfolding s3_def using length_dropWhile_le [of isDigit "tl s2"] by (cases s2) auto
  moreover have "length s4 \<le> length s3"
    by (simp add: s4_def)
  moreover have "length s5 \<le> length s4"
    by (simp add: s5_def)
  moreover have "length s6 \<le> length s5"
    by (simp add: s6_def length_dropWhile_le)
  ultimately show ?thesis
    by (cases ds) auto
qed


lemma dropWhile_Cons_shorter:
  "dropWhile P s = c # cs \<Longrightarrow> length cs < length s"
  using length_dropWhile_le [of P s] by simp

lemma parse_shorter_all:
  "(\<forall>s v r. parse_value n s = Some (v, r) \<longrightarrow> length r < length s) \<and>
   (\<forall>s vs r. parse_elements n s = Some (vs, r) \<longrightarrow> length r < length s) \<and>
   (\<forall>s ms r. parse_members n s = Some (ms, r) \<longrightarrow> length r < length s)"
proof (induction n)
  case 0
  then show ?case by simp
next
  case (Suc n)
  have v: "length r < length s" if a: "parse_value (Suc n) s = Some (v, r)" for s v r
  proof (cases "dropWhile isJsonWs s")
    case Nil
    show ?thesis using a by (simp add: Nil)
  next
    case (Cons c cs)
    then have l: "length cs < length s"
      by (rule dropWhile_Cons_shorter)
    consider (obj) "c = CHR ''{''" | (arr) "c \<noteq> CHR ''{''" "c = CHR ''[''"
      | (str) "c \<noteq> CHR ''{''" "c \<noteq> CHR ''[''" "c = CHR 0x22"
      | (other) "c \<noteq> CHR ''{''" "c \<noteq> CHR ''[''" "c \<noteq> CHR 0x22"
      by blast
    then show ?thesis
    proof cases
      case obj
      show ?thesis
      proof (cases "dropWhile isJsonWs cs")
        case Nil
        show ?thesis using a obj by (simp add: Nil Cons)
      next
        case inner: (Cons d r')
        then have l': "length r' < length cs"
          by (rule dropWhile_Cons_shorter)
        show ?thesis
        proof (cases "d = CHR ''}''")
          case True
          then show ?thesis using a obj l l' by (simp add: Cons inner)
        next
          case False
          then obtain ms where "parse_members n cs = Some (ms, r)"
            using a obj by (auto simp: Cons inner)
          then have "length r < length cs" using Suc by blast
          then show ?thesis using l by simp
        qed
      qed
    next
      case arr
      show ?thesis
      proof (cases "dropWhile isJsonWs cs")
        case Nil
        show ?thesis using a arr by (simp add: Nil Cons)
      next
        case inner: (Cons d r')
        then have l': "length r' < length cs"
          by (rule dropWhile_Cons_shorter)
        show ?thesis
        proof (cases "d = CHR '']''")
          case True
          then show ?thesis using a arr l l' by (simp add: Cons inner)
        next
          case False
          then obtain vs where "parse_elements n cs = Some (vs, r)"
            using a arr by (auto simp: Cons inner)
          then have "length r < length cs" using Suc by blast
          then show ?thesis using l by simp
        qed
      qed
    next
      case str
      then obtain x where "parse_chars cs = Some (x, r)"
        using a by (auto simp: Cons)
      then have "length r < length cs" by (rule parse_chars_shorter)
      then show ?thesis using l by simp
    next
      case other
      have "r = drop 4 (c # cs) \<or> r = drop 5 (c # cs) \<or> parse_number (c # cs) = Some (v, r)"
        using a other by (simp split: if_splits add: Cons)
      then have "length r < length (c # cs)"
        using parse_number_shorter [of "c # cs" v r] by auto
      then show ?thesis using l by simp
    qed
  qed
  have e: "length r < length s" if a: "parse_elements (Suc n) s = Some (vs, r)" for s vs r
  proof -
    obtain v r0 where v0: "parse_value n s = Some (v, r0)"
      using a by (auto split: option.splits)
    then have l0: "length r0 < length s" using Suc by blast
    show ?thesis
    proof (cases "dropWhile isJsonWs r0")
      case Nil
      show ?thesis using a v0 by (simp add: Nil)
    next
      case (Cons c r')
      then have l: "length r' < length r0"
        by (rule dropWhile_Cons_shorter)
      show ?thesis
      proof (cases "c = CHR '',''")
        case True
        then obtain vs' where "parse_elements n r' = Some (vs', r)"
          using a v0 by (auto simp: Cons)
        then have "length r < length r'" using Suc by blast
        then show ?thesis using l l0 by simp
      next
        case False
        then have "r = r'"
          using a v0 by (simp split: if_splits add: Cons)
        then show ?thesis using l l0 by simp
      qed
    qed
  qed
  have m: "length r < length s" if a: "parse_members (Suc n) s = Some (ms, r)" for s ms r
  proof (cases "dropWhile isJsonWs s")
    case Nil
    show ?thesis using a by (simp add: Nil)
  next
    case (Cons q s1)
    then have l1: "length s1 < length s"
      by (rule dropWhile_Cons_shorter)
    have q: "q = CHR 0x22"
      using a by (simp split: if_splits add: Cons)
    obtain k s2 where k: "parse_chars s1 = Some (k, s2)"
      using a q by (auto split: option.splits simp: Cons)
    then have l2: "length s2 < length s1" by (rule parse_chars_shorter)
    show ?thesis
    proof (cases "dropWhile isJsonWs s2")
      case Nil
      show ?thesis using a q k by (simp add: Nil Cons)
    next
      case colon: (Cons co s3)
      then have l3: "length s3 < length s2"
        by (rule dropWhile_Cons_shorter)
      have co: "co = CHR '':''"
        using a q k by (simp split: if_splits add: Cons colon)
      obtain v s4 where v4: "parse_value n s3 = Some (v, s4)"
        using a q k co by (auto split: option.splits simp: Cons colon)
      then have l4: "length s4 < length s3" using Suc by blast
      show ?thesis
      proof (cases "dropWhile isJsonWs s4")
        case Nil
        show ?thesis using a q k co v4 by (simp add: Nil Cons colon)
      next
        case last: (Cons c r')
        then have l5: "length r' < length s4"
          by (rule dropWhile_Cons_shorter)
        show ?thesis
        proof (cases "c = CHR '',''")
          case True
          then obtain ms' where "parse_members n r' = Some (ms', r)"
            using a q k co v4 by (auto simp: Cons colon last)
          then have "length r < length r'" using Suc by blast
          then show ?thesis using l1 l2 l3 l4 l5 by simp
        next
          case False
          then have "r = r'"
            using a q k co v4 by (simp split: if_splits add: Cons colon last)
          then show ?thesis using l1 l2 l3 l4 l5 by simp
        qed
      qed
    qed
  qed
  show ?case using v e m by blast
qed


lemma parse_shorter:
  "parse_value n s = Some (v, r) \<Longrightarrow> length r < length s"
  "parse_elements n s = Some (vs, r) \<Longrightarrow> length r < length s"
  "parse_members n s = Some (ms, r) \<Longrightarrow> length r < length s"
  using parse_shorter_all [of n] by blast+

lemmas parse_simps_del = parse_value.simps parse_elements.simps parse_members.simps

lemma parse_fuel_stable:
  "(\<forall>s. 2 * length s + 1 \<le> n \<longrightarrow> parse_value (Suc n) s = parse_value n s) \<and>
   (\<forall>s. 2 * length s + 2 \<le> n \<longrightarrow> parse_elements (Suc n) s = parse_elements n s) \<and>
   (\<forall>s. 2 * length s + 2 \<le> n \<longrightarrow> parse_members (Suc n) s = parse_members n s)"
proof (induction n)
  case 0
  then show ?case by simp
next
  case (Suc n)
  have v: "parse_value (Suc (Suc n)) s = parse_value (Suc n) s"
    if b: "2 * length s + 1 \<le> Suc n" for s
  proof (cases "dropWhile isJsonWs s")
    case Nil
    note V = parse_value.simps(2) [of "Suc n" s] parse_value.simps(2) [of n s]
    show ?thesis by (simp add: V Nil del: parse_simps_del)
  next
    case (Cons c cs)
    note V = parse_value.simps(2) [of "Suc n" s] parse_value.simps(2) [of n s]
    from Cons have "length cs < length s"
      by (rule dropWhile_Cons_shorter)
    then have "2 * length cs + 2 \<le> n"
      using b by simp
    then have rec: "parse_elements (Suc n) cs = parse_elements n cs"
        "parse_members (Suc n) cs = parse_members n cs"
      using Suc by blast+
    show ?thesis
    proof (cases "dropWhile isJsonWs cs")
      case Nil
      show ?thesis by (simp add: V Cons Nil del: parse_simps_del)
    next
      case inner: (Cons d r')
      show ?thesis by (simp add: V Cons inner rec del: parse_simps_del)
    qed
  qed
  have e: "parse_elements (Suc (Suc n)) s = parse_elements (Suc n) s"
    if b: "2 * length s + 2 \<le> Suc n" for s
  proof -
    note E = parse_elements.simps(2) [of "Suc n" s] parse_elements.simps(2) [of n s]
    have pv: "parse_value (Suc n) s = parse_value n s"
      using b Suc by simp
    show ?thesis
    proof (cases "parse_value n s")
      case None
      then show ?thesis using pv by (simp add: E del: parse_simps_del)
    next
      case (Some a)
      obtain v r0 where a: "a = (v, r0)" by (cases a)
      have l0: "length r0 < length s"
        using Some a parse_shorter(1) by blast
      show ?thesis
      proof (cases "dropWhile isJsonWs r0")
        case Nil
        show ?thesis using pv Some a by (simp add: Nil E del: parse_simps_del)
      next
        case (Cons c r')
        then have "length r' < length r0"
          by (rule dropWhile_Cons_shorter)
        then have "2 * length r' + 2 \<le> n"
          using b l0 by simp
        then have rec: "parse_elements (Suc n) r' = parse_elements n r'"
          using Suc by blast
        show ?thesis
          using pv Some a by (simp add: E Cons rec del: parse_simps_del)
      qed
    qed
  qed
  have m: "parse_members (Suc (Suc n)) s = parse_members (Suc n) s"
    if b: "2 * length s + 2 \<le> Suc n" for s
  proof (cases "dropWhile isJsonWs s")
    case Nil
    note M = parse_members.simps(2) [of "Suc n" s] parse_members.simps(2) [of n s]
    show ?thesis by (simp add: M Nil del: parse_simps_del)
  next
    case (Cons q s1)
    note M = parse_members.simps(2) [of "Suc n" s] parse_members.simps(2) [of n s]
    from Cons have l1: "length s1 < length s"
      by (rule dropWhile_Cons_shorter)
    show ?thesis
    proof (cases "parse_chars s1")
      case None
      then show ?thesis by (simp add: M Cons del: parse_simps_del)
    next
      case (Some a)
      obtain k s2 where a: "a = (k, s2)" by (cases a)
      have l2: "length s2 < length s1"
        using Some a parse_chars_shorter by blast
      show ?thesis
      proof (cases "dropWhile isJsonWs s2")
        case Nil
        show ?thesis using Some a by (simp add: Nil M Cons del: parse_simps_del)
      next
        case colon: (Cons co s3)
        then have l3: "length s3 < length s2"
          by (rule dropWhile_Cons_shorter)
        have pv: "parse_value (Suc n) s3 = parse_value n s3"
          using b l1 l2 l3 Suc by simp
        show ?thesis
        proof (cases "parse_value n s3")
          case None
          then show ?thesis
            using pv Some a by (simp add: M Cons colon del: parse_simps_del)
        next
          case val: (Some a')
          obtain v s4 where a': "a' = (v, s4)" by (cases a')
          have l4: "length s4 < length s3"
            using val a' parse_shorter(1) by blast
          show ?thesis
          proof (cases "dropWhile isJsonWs s4")
            case Nil
            show ?thesis
              using pv Some a val a' by (simp add: Nil M Cons colon del: parse_simps_del)
          next
            case last: (Cons c r')
            then have "length r' < length s4"
              by (rule dropWhile_Cons_shorter)
            then have "2 * length r' + 2 \<le> n"
              using b l1 l2 l3 l4 by simp
            then have rec: "parse_members (Suc n) r' = parse_members n r'"
              using Suc by blast
            show ?thesis
              using pv Some a val a'
              by (simp add: M Cons colon last rec del: parse_simps_del)
          qed
        qed
      qed
    qed
  qed
  show ?case using v e m by blast
qed

lemma parse_value_more_fuel:
  "2 * length s + 1 \<le> n \<Longrightarrow> parse_value (n + k) s = parse_value n s"
proof (induction k)
  case 0
  then show ?case by simp
next
  case (Suc k)
  have "2 * length s + 1 \<le> n + k"
    using Suc.prems by simp
  then have "parse_value (Suc (n + k)) s = parse_value (n + k) s"
    using parse_fuel_stable [of "n + k"] by blast
  then show ?case
    using Suc by simp
qed

lemma JSON_parse_fuel:
  "2 * length s + 2 \<le> m \<Longrightarrow> parse_value m s = parse_value (2 * length s + 2) s"
proof -
  assume a: "2 * length s + 2 \<le> m"
  then have "2 * length s + 2 + (m - (2 * length s + 2)) = m"
    by simp
  then show ?thesis
    using parse_value_more_fuel [of s "2 * length s + 2" "m - (2 * length s + 2)"]
    by (simp only: le_add2 trans_le_add1 le_refl)
qed

section \<open>The regular expressions and the response schema\<close>

lemma greedyClose_split:
  "\<exists>post. cs = greedyClose cs @ post \<and> CHR ''}'' \<notin> set post"
proof -
  let ?P = "\<lambda>c. c \<noteq> CHR ''}''"
  have "rev cs = takeWhile ?P (rev cs) @ dropWhile ?P (rev cs)"
    by simp
  then have "cs = rev (dropWhile ?P (rev cs)) @ rev (takeWhile ?P (rev cs))"
    by (metis rev_append rev_rev_ident)
  moreover have "CHR ''}'' \<notin> set (rev (takeWhile ?P (rev cs)))"
    using set_takeWhileD by fastforce
  ultimately show ?thesis
    unfolding greedyClose_def by blast
qed

lemma greedyClose_last:
  "greedyClose cs \<noteq> [] \<Longrightarrow> \<exists>mid. greedyClose cs = mid @ [CHR ''}'']"
proof -
  let ?P = "\<lambda>c. c \<noteq> CHR ''}''"
  assume "greedyClose cs \<noteq> []"
  then have ne: "dropWhile ?P (rev cs) \<noteq> []"
    by (simp add: greedyClose_def)
  then have "\<not> ?P (hd (dropWhile ?P (rev cs)))"
    by (rule hd_dropWhile)
  then have "dropWhile ?P (rev cs) = CHR ''}'' # tl (dropWhile ?P (rev cs))"
    using ne by (cases "dropWhile ?P (rev cs)") auto
  then have "greedyClose cs = rev (tl (dropWhile ?P (rev cs))) @ [CHR ''}'']"
    unfolding greedyClose_def by (metis rev.simps(2))
  then show ?thesis by blast
qed

lemma greedyClose_append:
  "CHR ''}'' \<notin> set post \<Longrightarrow> greedyClose (mid @ CHR ''}'' # post) = mid @ [CHR ''}'']"
proof -
  assume a: "CHR ''}'' \<notin> set post"
  have "dropWhile (\<lambda>c. c \<noteq> CHR ''}'') (rev post @ CHR ''}'' # rev mid) = CHR ''}'' # rev mid"
    using a by (subst dropWhile_append2) auto
  then show ?thesis
    by (simp add: greedyClose_def)
qed

lemma matchBraces_Some_D:
  "matchBraces c = Some m \<Longrightarrow>
     \<exists>pre mid post. c = pre @ CHR ''{'' # mid @ CHR ''}'' # post \<and>
        CHR ''{'' \<notin> set pre \<and> CHR ''}'' \<notin> set post \<and> m = CHR ''{'' # mid @ [CHR ''}'']"
proof (induction c)
  case Nil
  then show ?case by simp
next
  case (Cons x xs)
  show ?case
  proof (cases "x = CHR ''{'' \<and> greedyClose xs \<noteq> []")
    case True
    then obtain mid where mid: "greedyClose xs = mid @ [CHR ''}'']"
      using greedyClose_last by blast
    obtain post where post: "xs = greedyClose xs @ post" "CHR ''}'' \<notin> set post"
      using greedyClose_split by blast
    have "m = CHR ''{'' # mid @ [CHR ''}'']"
      using Cons.prems True mid by simp
    moreover have "x # xs = [] @ CHR ''{'' # mid @ CHR ''}'' # post"
      using True post(1) mid by simp
    ultimately show ?thesis
      using post(2) by (metis empty_iff list.set(1))
  next
    case False
    then have rec: "matchBraces xs = Some m"
      using Cons.prems by auto
    then obtain pre mid post where d: "xs = pre @ CHR ''{'' # mid @ CHR ''}'' # post"
        "CHR ''{'' \<notin> set pre" "CHR ''}'' \<notin> set post" "m = CHR ''{'' # mid @ [CHR ''}'']"
      using Cons.IH by blast
    have "greedyClose xs \<noteq> []"
    proof
      assume e: "greedyClose xs = []"
      obtain post' where "xs = greedyClose xs @ post'" "CHR ''}'' \<notin> set post'"
        using greedyClose_split by blast
      then have "CHR ''}'' \<notin> set xs" using e by simp
      then show False using d(1) by simp
    qed
    then have "x \<noteq> CHR ''{''" using False by blast
    then have "x # xs = (x # pre) @ CHR ''{'' # mid @ CHR ''}'' # post \<and> CHR ''{'' \<notin> set (x # pre)"
      using d by simp
    then show ?thesis using d(3,4) by blast
  qed
qed

lemma matchBraces_Some_I:
  "CHR ''{'' \<notin> set pre \<Longrightarrow> CHR ''}'' \<notin> set post \<Longrightarrow>
     matchBraces (pre @ CHR ''{'' # mid @ CHR ''}'' # post) = Some (CHR ''{'' # mid @ [CHR ''}''])"
  by (induction pre) (auto simp: greedyClose_append)

lemma matchBraces_None_iff:
  "matchBraces c = None \<longleftrightarrow> \<not> (\<exists>pre mid post. c = pre @ CHR ''{'' # mid @ CHR ''}'' # post)"
proof
  assume "matchBraces c = None"
  show "\<not> (\<exists>pre mid post. c = pre @ CHR ''{'' # mid @ CHR ''}'' # post)"
  proof
    assume "\<exists>pre mid post. c = pre @ CHR ''{'' # mid @ CHR ''}'' # post"
    then obtain pre mid post where c: "c = pre @ CHR ''{'' # mid @ CHR ''}'' # post"
      by blast
    have "matchBraces (pre @ CHR ''{'' # mid @ CHR ''}'' # post) \<noteq> None"
    proof (induction pre)
      case Nil
      obtain post' where p: "mid @ CHR ''}'' # post = greedyClose (mid @ CHR ''}'' # post) @ post'"
          "CHR ''}'' \<notin> set post'"
        using greedyClose_split by blast
      have "greedyClose (mid @ CHR ''}'' # post) \<noteq> []"
      proof
        assume "greedyClose (mid @ CHR ''}'' # post) = []"
        then have "mid @ CHR ''}'' # post = post'" using p(1) by simp
        then show False using p(2) by (metis in_set_conv_decomp)
      qed
      then show ?case by simp
    next
      case (Cons a pre)
      then show ?case by simp
    qed
    then show False using \<open>matchBraces c = None\<close> c by simp
  qed
next
  assume n: "\<not> (\<exists>pre mid post. c = pre @ CHR ''{'' # mid @ CHR ''}'' # post)"
  show "matchBraces c = None"
  proof (cases "matchBraces c")
    case None
    then show ?thesis .
  next
    case (Some m)
    then show ?thesis using matchBraces_Some_D n by blast
  qed
qed

lemma removeFence_id:
  "\<not> sublist lit s \<Longrightarrow> removeFence lit s = s"
proof (induction lit s rule: removeFence.induct)
  case (1 lit)
  then show ?case by simp
next
  case (2 lit c cs)
  have np: "\<not> prefix lit (c # cs)"
    using "2.prems" by (auto simp: sublist_Cons_right)
  have "\<not> sublist lit cs"
    using "2.prems" by (auto simp: sublist_Cons_right)
  then show ?case
    using "2.IH"(2) np by simp
qed

lemma removeFence_subseq:
  "subseq (removeFence lit s) s"
proof (induction lit s rule: removeFence.induct)
  case (1 lit)
  then show ?case by simp
next
  case (2 lit c cs)
  show ?case
  proof (cases "lit \<noteq> [] \<and> prefix lit (c # cs)")
    case True
    have "subseq (dropNewline t) t" for t
      by (auto simp: dropNewline_def split: list.splits)
    then have "subseq (dropNewline (drop (length lit) (c # cs))) (c # cs)"
      by (meson subseq_order.order_trans suffix_drop suffix_imp_subseq)
    then show ?thesis
      using True "2.IH"(1) by (metis removeFence.simps(2) subseq_order.order_trans)
  next
    case False
    then show ?thesis using "2.IH"(2) by auto
  qed
qed

lemma removeFence_hd:
  "removeFence ''```'' s = CHR 0x60 # r \<Longrightarrow> \<exists>t. s = CHR 0x60 # t"
  by (induction "''```''" s rule: removeFence.induct) (auto split: if_splits)

lemma removeFence_hd2:
  "removeFence ''```'' s = CHR 0x60 # CHR 0x60 # r \<Longrightarrow> \<exists>t. s = CHR 0x60 # CHR 0x60 # t"
proof (induction "''```''" s rule: removeFence.induct)
  case 1
  then show ?case by simp
next
  case (2 c cs)
  show ?case
  proof (cases "prefix ''```'' (c # cs)")
    case True
    then show ?thesis by (auto simp: prefix_def)
  next
    case False
    then have "removeFence ''```'' (c # cs) = c # removeFence ''```'' cs"
      by (subst removeFence.simps(2)) (simp only: if_False simp_thms)
    then have "removeFence ''```'' cs = CHR 0x60 # r" and "c = CHR 0x60"
      using "2.prems" by simp_all
    then show ?thesis using removeFence_hd by blast
  qed
qed

lemma removeFence_no_fence:
  "\<not> sublist ''```'' (removeFence ''```'' s)"
proof (induction "''```''" s rule: removeFence.induct)
  case 1
  then show ?case by simp
next
  case (2 c cs)
  show ?case
  proof (cases "prefix ''```'' (c # cs)")
    case True
    have ne: "''```'' \<noteq> []"
      by simp
    have "removeFence ''```'' (c # cs) =
        removeFence ''```'' (dropNewline (drop (length ''```'') (c # cs)))"
      using True by (subst removeFence.simps(2)) (simp only: if_True simp_thms list.distinct)
    then show ?thesis
      using "2.hyps"(1) [OF conjI [OF ne True]] by (simp only: simp_thms)
  next
    case False
    then have eq: "removeFence ''```'' (c # cs) = c # removeFence ''```'' cs"
      by (subst removeFence.simps(2)) (simp only: if_False simp_thms)
    have "\<not> prefix ''```'' (c # removeFence ''```'' cs)"
    proof
      assume "prefix ''```'' (c # removeFence ''```'' cs)"
      then obtain r where "c = CHR 0x60" "removeFence ''```'' cs = CHR 0x60 # CHR 0x60 # r"
        by (auto simp: prefix_def)
      then show False using removeFence_hd2 False by (auto simp: prefix_def)
    qed
    then show ?thesis
      using False "2.hyps"(2) unfolding eq by (simp only: sublist_Cons_right simp_thms list.distinct)
  qed
qed


lemma collect_map_Inr:
  "collect (map Inr xs) = Inr xs"
  by (induction xs) auto

lemma collect_Inr_D:
  "collect rs = Inr xs \<Longrightarrow> rs = map Inr xs"
  by (induction rs arbitrary: xs) (auto split: sum.splits)

lemma collect_Inr_iff:
  "collect rs = Inr xs \<longleftrightarrow> rs = map Inr xs"
  using collect_map_Inr collect_Inr_D by blast

lemma z_string_min1_iff:
  "z_string (Suc 0) None False p v = Inr s \<longleftrightarrow> v = Some (JString s) \<and> s \<noteq> []"
  by (auto simp: z_string_def split: option.splits json.splits)

lemma suggestionSchema_iff:
  "suggestionSchema p v = Inr it \<longleftrightarrow> (\<exists>e. v = Some e \<and> element_ok e it)"
proof (cases v)
  case None
  then show ?thesis by (simp add: suggestionSchema_def)
next
  case (Some e)
  show ?thesis
  proof (cases e)
    case (JObject fs)
    have "suggestionSchema p (Some (JObject fs)) = Inr it \<longleftrightarrow>
        z_string 1 None False (p @ [Key ''title'']) (map_of fs ''title'') = Inr (title it) \<and>
        z_string 1 None False (p @ [Key ''reason'']) (map_of fs ''reason'') = Inr (reason it) \<and>
        z_string 1 None False (p @ [Key ''action'']) (map_of fs ''action'') = Inr (action it)"
      by (cases it) (auto simp: suggestionSchema_def Let_def split: sum.splits)
    then show ?thesis
      using Some JObject by (auto simp: z_string_min1_iff)
  qed (simp_all add: Some suggestionSchema_def)
qed

lemma z_array_Inr_iff:
  "z_array elem lo hi p (Some (JArray es)) = Inr xs \<longleftrightarrow>
     lo \<le> length es \<and> length es \<le> hi \<and>
     map (\<lambda>(i, x). elem (p @ [Idx i]) (Some x)) (enumerate 0 es) = map Inr xs"
  by (auto simp: z_array_def Let_def collect_Inr_iff collect_map_Inr split: if_splits)

lemma suggestions_array_iff:
  "z_array suggestionSchema (Suc 0) 10 p (Some (JArray es)) = Inr xs \<longleftrightarrow>
     Suc 0 \<le> length es \<and> length es \<le> 10 \<and> list_all2 element_ok es xs"
proof -
  have "map (\<lambda>(i, x). suggestionSchema (p @ [Idx i]) (Some x)) (enumerate 0 es) = map Inr xs
      \<longleftrightarrow> list_all2 element_ok es xs"
    by (auto simp: list_eq_iff_nth_eq list_all2_conv_all_nth nth_enumerate_eq suggestionSchema_iff)
  then show ?thesis
    by (simp add: z_array_Inr_iff)
qed

lemma aiResponseSchema_iff:
  "aiResponseSchema p v = Inr r \<longleftrightarrow>
     (\<exists>kvs es. v = Some (JObject kvs) \<and> map_of kvs ''suggestions'' = Some (JArray es) \<and>
        1 \<le> length es \<and> length es \<le> 10 \<and> list_all2 element_ok es (suggestions r))"
proof (cases v)
  case None
  then show ?thesis by (simp add: aiResponseSchema_def)
next
  case (Some e)
  show ?thesis
  proof (cases e)
    case (JObject kvs)
    show ?thesis
    proof (cases "map_of kvs ''suggestions''")
      case None
      then show ?thesis
        using Some JObject by (simp add: aiResponseSchema_def z_array_def)
    next
      case outer: (Some a)
      show ?thesis
      proof (cases a)
        case (JArray es)
        have "aiResponseSchema p (Some (JObject kvs)) = Inr r \<longleftrightarrow>
            z_array suggestionSchema 1 10 (p @ [Key ''suggestions'']) (Some (JArray es)) =
              Inr (suggestions r)"
          using outer JArray by (cases r) (auto simp: aiResponseSchema_def split: sum.splits)
        then show ?thesis
          using Some JObject outer JArray by (simp add: suggestions_array_iff)
      qed (simp_all add: Some JObject outer aiResponseSchema_def z_array_def)
    qed
  qed (simp_all add: Some aiResponseSchema_def)
qed

lemma validate_candidate_Inr_iff:
  "validate_candidate s = Inr items \<longleftrightarrow>
     (\<exists>kvs es. JSON_parse s = Some (JObject kvs) \<and>
        map_of kvs ''suggestions'' = Some (JArray es) \<and>
        1 \<le> length es \<and> length es \<le> 10 \<and> list_all2 element_ok es items)"
proof (cases "JSON_parse s")
  case None
  then show ?thesis by (simp add: validate_candidate_def)
next
  case (Some parsed)
  have "validate_candidate s = Inr items \<longleftrightarrow>
      (\<exists>r. aiResponseSchema [] (Some parsed) = Inr r \<and> suggestions r = items)"
    using Some by (auto simp: validate_candidate_def zod_parse_def split: sum.splits)
  also have "\<dots> \<longleftrightarrow> (\<exists>kvs es. parsed = JObject kvs \<and>
        map_of kvs ''suggestions'' = Some (JArray es) \<and>
        1 \<le> length es \<and> length es \<le> 10 \<and> list_all2 element_ok es items)"
  proof
    assume "\<exists>r. aiResponseSchema [] (Some parsed) = Inr r \<and> suggestions r = items"
    then show "\<exists>kvs es. parsed = JObject kvs \<and>
        map_of kvs ''suggestions'' = Some (JArray es) \<and>
        1 \<le> length es \<and> length es \<le> 10 \<and> list_all2 element_ok es items"
      using aiResponseSchema_iff by blast
  next
    assume "\<exists>kvs es. parsed = JObject kvs \<and>
        map_of kvs ''suggestions'' = Some (JArray es) \<and>
        1 \<le> length es \<and> length es \<le> 10 \<and> list_all2 element_ok es items"
    then have "aiResponseSchema [] (Some parsed) = Inr \<lparr>suggestions = items\<rparr>"
      by (subst aiResponseSchema_iff) simp
    then show "\<exists>r. aiResponseSchema [] (Some parsed) = Inr r \<and> suggestions r = items"
      by (metis AiResponse.select_convs(1))
  qed
  finally show ?thesis
    using Some by simp
qed

lemma validate_candidate_Inl:
  "validate_candidate s = Inl e \<Longrightarrow> e = SyntaxError \<or> (\<exists>is. e = ZodError is)"
  by (auto simp: validate_candidate_def zod_parse_def split: option.splits sum.splits)

lemma validate_candidate_empty:
  "JSON_parse s = Some (JObject kvs) \<Longrightarrow> map_of kvs ''suggestions'' = Some (JArray []) \<Longrightarrow>
     validate_candidate s = Inl (ZodError [Issue too_small [Key ''suggestions'']])"
  by (simp add: validate_candidate_def zod_parse_def aiResponseSchema_def z_array_def)

lemma parseSuggestions_length:
  "1 \<le> length (parseSuggestions raw) \<and> length (parseSuggestions raw) \<le> 10"
proof (cases "parseSuggestions_try raw")
  case (Inl e)
  then show ?thesis
    by (simp add: parseSuggestions_def fallbackSuggestions_def)
next
  case (Inr items)
  then have "validate_candidate (projr (normalize_response raw)) = Inr items"
    by (auto simp: parseSuggestions_try_def split: sum.splits)
  then have "1 \<le> length items \<and> length items \<le> 10"
    unfolding validate_candidate_Inr_iff by (auto dest: list_all2_lengthD)
  then show ?thesis
    using Inr by (simp add: parseSuggestions_def)
qed

lemma cleaned_subseq: "subseq (cleaned raw) (trim raw)"
  unfolding cleaned_def
  by (meson removeFence_subseq subseq_order.order_trans)

lemma cleaned_id: "\<not> sublist ''```'' (trim raw) \<Longrightarrow> cleaned raw = trim raw"
proof -
  assume a: "\<not> sublist ''```'' (trim raw)"
  have "sublist ''```'' ''```json''"
    by (simp add: sublist_def) (metis append_Nil append_Cons)
  then have "\<not> sublist ''```json'' (trim raw)"
    using a sublist_order.order_trans by blast
  then show ?thesis
    using a by (simp add: cleaned_def removeFence_id)
qed

lemma prefix_within:
  assumes "lit \<noteq> []" "prefix lit (x # a @ lit @ rest)"
  shows "sublist lit ((x # a) @ butlast lit)"
proof -
  obtain t where t: "x # a @ lit @ rest = lit @ t"
    using assms(2) by (auto simp: prefix_def)
  have len: "length lit \<le> length ((x # a) @ butlast lit)"
    using assms(1) by (cases lit rule: rev_cases) auto
  have "take (length lit) (x # a @ lit @ rest) = lit"
    using t by simp
  moreover have "x # a @ lit @ rest = ((x # a) @ butlast lit) @ (last lit # rest)"
    using assms(1) by (simp add: append_butlast_last_id)
  ultimately have "take (length lit) ((x # a) @ butlast lit) = lit"
    using len by (metis append_eq_conv_conj order_refl take_all take_append diff_is_0_eq' take_0 append_Nil2)
  then have "prefix lit ((x # a) @ butlast lit)"
    by (metis take_is_prefix)
  then show ?thesis
    by (rule prefix_imp_sublist)
qed

lemma removeFence_first:
  assumes "lit \<noteq> []" "\<not> sublist lit (a @ butlast lit)"
  shows "removeFence lit (a @ lit @ rest) = a @ removeFence lit (dropNewline rest)"
  using assms(2)
proof (induction a)
  case Nil
  obtain c cs where l: "lit @ rest = c # cs"
    using assms(1) by (cases lit) auto
  have "prefix lit (c # cs)"
    using l by (metis prefixI)
  then have "removeFence lit (c # cs) = removeFence lit (dropNewline (drop (length lit) (c # cs)))"
    using assms(1) by simp
  then show ?case
    using l by (metis append_Nil append_eq_conv_conj)
next
  case (Cons x a)
  have np: "\<not> prefix lit (x # a @ lit @ rest)"
    using Cons.prems prefix_within [OF assms(1)] by blast
  have "\<not> sublist lit (a @ butlast lit)"
    using Cons.prems by (auto simp: sublist_Cons_right)
  then have "removeFence lit (a @ lit @ rest) = a @ removeFence lit (dropNewline rest)"
    by (rule Cons.IH)
  then show ?case
    using np by simp
qed

section \<open>The paths of the handler\<close>

lemma single_take1:
  "single (take (Suc 0) xs) = (case xs of [] \<Rightarrow> None | x # _ \<Rightarrow> Some x)"
  by (cases xs) auto

lemma recentSuggestion_None_iff:
  "recentSuggestion tbl uid t = None \<longleftrightarrow>
     \<not> (\<exists>r \<in> set tbl. user_id r = uid \<and> t - 86400000 \<le> created_at r)"
proof -
  let ?P = "\<lambda>r. user_id r = uid \<and> t - 24 * 60 * 60 * 1000 \<le> created_at r"
  have "recentSuggestion tbl uid t = None \<longleftrightarrow> filter ?P tbl = []"
    by (cases "filter ?P tbl") (simp_all add: recentSuggestion_def single_take1)
  then show ?thesis
    by (simp add: filter_empty_conv)
qed

lemma POST_try_no_body: "POST_try e w None = (Inl SyntaxError, w)"
  by (simp add: POST_try_def)

lemma POST_try_invalid:
  "validate aiPromptSchema b = Inl x \<Longrightarrow> POST_try e w (Some b) = (Inl x, w)"
  by (simp add: POST_try_def)

lemma POST_try_no_env:
  "validate aiPromptSchema b = Inr v \<Longrightarrow> \<not> supabase_env e \<Longrightarrow>
     POST_try e w (Some b) = (Inl MissingSupabaseEnv, w)"
  by (simp add: POST_try_def)

lemma POST_try_unauthorized:
  "validate aiPromptSchema b = Inr v \<Longrightarrow> supabase_env e \<Longrightarrow> auth_user e = None \<Longrightarrow>
     POST_try e w (Some b) = (Inr unauthorized, w)"
  by (simp add: POST_try_def)

lemma POST_try_limited:
  "validate aiPromptSchema b = Inr v \<Longrightarrow> supabase_env e \<Longrightarrow> auth_user e = Some uid \<Longrightarrow>
     recentSuggestion (profile_suggestions w) uid (now e) = Some t \<Longrightarrow>
     POST_try e w (Some b) = (Inr oncePerDay, w)"
  by (simp add: POST_try_def)

lemma POST_try_cached:
  "validate aiPromptSchema b = Inr v \<Longrightarrow> supabase_env e \<Longrightarrow> auth_user e = Some uid \<Longrightarrow>
     recentSuggestion (profile_suggestions w) uid (now e) = None \<Longrightarrow>
     cachedSuggestions (profile_suggestions w) v (firstFewWords e) = Some s \<Longrightarrow>
     POST_try e w (Some b) = (Inr (cachedResponse s), w)"
  by (simp add: POST_try_def)

lemma POST_try_gateway_throws:
  "generating e w b v uid \<Longrightarrow> openai e (buildProfileSuggestionPrompt v) = Inl x \<Longrightarrow>
     POST_try e w (Some b) = (Inl x, w\<lparr>openai_calls := openai_calls w + 1\<rparr>)"
  by (simp add: POST_try_def generating_def)

lemma POST_try_no_choice:
  "generating e w b v uid \<Longrightarrow> openai e (buildProfileSuggestionPrompt v) = Inr [] \<Longrightarrow>
     POST_try e w (Some b) = (Inl TypeError, w\<lparr>openai_calls := openai_calls w + 1\<rparr>)"
  by (simp add: POST_try_def generating_def)

lemma POST_try_generated:
  "generating e w b v uid \<Longrightarrow> openai e (buildProfileSuggestionPrompt v) = Inr (a # others) \<Longrightarrow>
     POST_try e w (Some b) =
       (Inr (successResponse e v (parseSuggestions (orEmpty a))),
        if insert_error e then w\<lparr>openai_calls := openai_calls w + 1\<rparr>
        else w\<lparr>openai_calls := openai_calls w + 1,
               profile_suggestions :=
                 profile_suggestions w @ [newRow e uid v (parseSuggestions (orEmpty a))]\<rparr>)"
  by (simp add: POST_try_def generating_def orEmpty_def Let_def)

text \<open>Every run of the try block takes one of nine paths.\<close>

lemma POST_try_cases:
  obtains
    (no_body) "req = None"
  | (invalid) b x where "req = Some b" "validate aiPromptSchema b = Inl x"
  | (no_env) b v where "req = Some b" "validate aiPromptSchema b = Inr v" "\<not> supabase_env e"
  | (unauthorized) b v where "req = Some b" "validate aiPromptSchema b = Inr v" "supabase_env e"
      "auth_user e = None"
  | (limited) b v uid t where "req = Some b" "validate aiPromptSchema b = Inr v" "supabase_env e"
      "auth_user e = Some uid" "recentSuggestion (profile_suggestions w) uid (now e) = Some t"
  | (cached) b v uid s where "req = Some b" "validate aiPromptSchema b = Inr v" "supabase_env e"
      "auth_user e = Some uid" "recentSuggestion (profile_suggestions w) uid (now e) = None"
      "cachedSuggestions (profile_suggestions w) v (firstFewWords e) = Some s"
  | (throws) b v uid x where "req = Some b" "generating e w b v uid"
      "openai e (buildProfileSuggestionPrompt v) = Inl x"
  | (no_choice) b v uid where "req = Some b" "generating e w b v uid"
      "openai e (buildProfileSuggestionPrompt v) = Inr []"
  | (generated) b v uid a others where "req = Some b" "generating e w b v uid"
      "openai e (buildProfileSuggestionPrompt v) = Inr (a # others)"
proof (cases req)
  case None
  then show ?thesis using no_body by blast
next
  case (Some b)
  show ?thesis
  proof (cases "validate aiPromptSchema b")
    case (Inl x)
    then show ?thesis using Some invalid by blast
  next
    case (Inr v)
    show ?thesis
    proof (cases "supabase_env e")
      case False
      then show ?thesis using Some Inr no_env by blast
    next
      case True
      show ?thesis
      proof (cases "auth_user e")
        case None
        then show ?thesis using Some Inr True unauthorized by blast
      next
        case user: (Some uid)
        show ?thesis
        proof (cases "recentSuggestion (profile_suggestions w) uid (now e)")
          case (Some t)
          then show ?thesis using \<open>req = Some b\<close> Inr True user limited by blast
        next
          case None
          show ?thesis
          proof (cases "cachedSuggestions (profile_suggestions w) v (firstFewWords e)")
            case (Some s)
            then show ?thesis using \<open>req = Some b\<close> Inr True user None cached by blast
          next
            case miss: None
            have g: "generating e w b v uid"
              using Inr True user None miss by (simp add: generating_def)
            show ?thesis
            proof (cases "openai e (buildProfileSuggestionPrompt v)")
              case (Inl x)
              then show ?thesis using \<open>req = Some b\<close> g throws by blast
            next
              case choices: (Inr cs)
              show ?thesis
              proof (cases cs)
                case Nil
                then show ?thesis using \<open>req = Some b\<close> g choices no_choice by blast
              next
                case (Cons a others)
                then show ?thesis using \<open>req = Some b\<close> g choices generated by blast
              qed
            qed
          qed
        qed
      qed
    qed
  qed
qed


lemma POST_conv:
  "POST e w req =
     (case fst (POST_try e w req) of Inl x \<Rightarrow> failedToGenerate | Inr r \<Rightarrow> r,
      snd (POST_try e w req))"
  by (simp add: POST_def split: prod.splits sum.splits)

lemma z_string_trim_iff:
  "z_string lo (Some hi) True p v = Inr s \<longleftrightarrow>
     (\<exists>b. v = Some (JString b) \<and> lo \<le> length b \<and> length b \<le> hi \<and> s = trim b)"
  by (auto simp: z_string_def Let_def split: option.splits json.splits if_splits)

lemma experienceLevelEnum_iff:
  "experienceLevelEnum p x = Inr l \<longleftrightarrow> x = Some (JString (levelName l))"
  by (cases l) (auto simp: experienceLevelEnum_def levelName_def)

lemma optional_goals_iff:
  "z_optional (z_string 0 (Some 1000) True) p x = Inr y \<longleftrightarrow>
     (x = None \<and> y = None) \<or>
     (\<exists>g. x = Some (JString g) \<and> length g \<le> 1000 \<and> y = Some (trim g))"
proof (cases x)
  case None
  then show ?thesis by (auto simp: z_optional_def)
next
  case (Some a)
  have "z_optional (z_string 0 (Some 1000) True) p (Some a) = Inr y \<longleftrightarrow>
      (\<exists>s. z_string 0 (Some 1000) True p (Some a) = Inr s \<and> y = Some s)"
    by (auto simp: z_optional_def split: sum.splits)
  then show ?thesis
    using Some by (auto simp: z_string_trim_iff)
qed

lemma aiPromptSchema_iff:
  "aiPromptSchema p (Some (JObject kvs)) = Inr v \<longleftrightarrow>
     (\<exists>b. map_of kvs ''userBackground'' = Some (JString b) \<and> 10 \<le> length b \<and>
          length b \<le> 2000 \<and> userBackground v = trim b) \<and>
     ((map_of kvs ''currentGoals'' = None \<and> currentGoals v = None) \<or>
      (\<exists>g. map_of kvs ''currentGoals'' = Some (JString g) \<and> length g \<le> 1000 \<and>
           currentGoals v = Some (trim g))) \<and>
     map_of kvs ''experienceLevel'' = Some (JString (levelName (experienceLevel v)))"
proof -
  have "aiPromptSchema p (Some (JObject kvs)) = Inr v \<longleftrightarrow>
      z_string 10 (Some 2000) True (p @ [Key ''userBackground''])
        (map_of kvs ''userBackground'') = Inr (userBackground v) \<and>
      z_optional (z_string 0 (Some 1000) True) (p @ [Key ''currentGoals''])
        (map_of kvs ''currentGoals'') = Inr (currentGoals v) \<and>
      experienceLevelEnum (p @ [Key ''experienceLevel''])
        (map_of kvs ''experienceLevel'') = Inr (experienceLevel v)"
    by (cases v) (auto simp: aiPromptSchema_def Let_def split: sum.splits)
  then show ?thesis
    by (simp add: z_string_trim_iff optional_goals_iff experienceLevelEnum_iff)
qed

lemma aiPromptSchema_short:
  "map_of kvs ''userBackground'' = Some (JString b) \<Longrightarrow> length b < 10 \<Longrightarrow>
     \<exists>is. aiPromptSchema [] (Some (JObject kvs)) = Inl is \<and>
          Issue too_small [Key ''userBackground''] \<in> set is"
  by (auto simp: aiPromptSchema_def z_string_def Let_def split: sum.splits)

lemma status_simps:
  "status unauthorized = 401" "status oncePerDay = 429" "status (cachedResponse s) = 200"
  "status (successResponse e v ss) = 200" "status failedToGenerate = 500"
  by (simp_all add: unauthorized_def oncePerDay_def cachedResponse_def successResponse_def
      failedToGenerate_def)

lemma POST_invalid:
  "validate aiPromptSchema b = Inl x \<Longrightarrow> POST e w (Some b) = (failedToGenerate, w)"
  by (simp add: POST_conv POST_try_invalid)

lemma POST_no_env:
  "validate aiPromptSchema b = Inr v \<Longrightarrow> \<not> supabase_env e \<Longrightarrow>
     POST e w (Some b) = (failedToGenerate, w)"
  by (simp add: POST_conv POST_try_no_env)

lemma POST_unauthorized:
  "validate aiPromptSchema b = Inr v \<Longrightarrow> supabase_env e \<Longrightarrow> auth_user e = None \<Longrightarrow>
     POST e w (Some b) = (unauthorized, w)"
  by (simp add: POST_conv POST_try_unauthorized)

lemma POST_limited:
  "validate aiPromptSchema b = Inr v \<Longrightarrow> supabase_env e \<Longrightarrow> auth_user e = Some uid \<Longrightarrow>
     recentSuggestion (profile_suggestions w) uid (now e) = Some t \<Longrightarrow>
     POST e w (Some b) = (oncePerDay, w)"
  by (simp add: POST_conv POST_try_limited)

lemma POST_cached:
  "validate aiPromptSchema b = Inr v \<Longrightarrow> supabase_env e \<Longrightarrow> auth_user e = Some uid \<Longrightarrow>
     recentSuggestion (profile_suggestions w) uid (now e) = None \<Longrightarrow>
     cachedSuggestions (profile_suggestions w) v (firstFewWords e) = Some s \<Longrightarrow>
     POST e w (Some b) = (cachedResponse s, w)"
  by (simp add: POST_conv POST_try_cached)

lemma POST_gateway_throws:
  "generating e w b v uid \<Longrightarrow> openai e (buildProfileSuggestionPrompt v) = Inl x \<Longrightarrow>
     POST e w (Some b) = (failedToGenerate, w\<lparr>openai_calls := openai_calls w + 1\<rparr>)"
  by (simp add: POST_conv POST_try_gateway_throws)

lemma POST_no_choice:
  "generating e w b v uid \<Longrightarrow> openai e (buildProfileSuggestionPrompt v) = Inr [] \<Longrightarrow>
     POST e w (Some b) = (failedToGenerate, w\<lparr>openai_calls := openai_calls w + 1\<rparr>)"
  by (simp add: POST_conv POST_try_no_choice)

lemma POST_generated:
  "generating e w b v uid \<Longrightarrow> openai e (buildProfileSuggestionPrompt v) = Inr (a # others) \<Longrightarrow>
     POST e w (Some b) =
       (successResponse e v (parseSuggestions (orEmpty a)),
        if insert_error e then w\<lparr>openai_calls := openai_calls w + 1\<rparr>
        else w\<lparr>openai_calls := openai_calls w + 1,
               profile_suggestions :=
                 profile_suggestions w @ [newRow e uid v (parseSuggestions (orEmpty a))]\<rparr>)"
  by (simp add: POST_conv POST_try_generated)

lemma generating_insert_error [simp]:
  "generating (e\<lparr>insert_error := f\<rparr>) w b v uid = generating e w b v uid"
  by (simp add: generating_def)

lemma successResponse_insert_error [simp]:
  "successResponse (e\<lparr>insert_error := f\<rparr>) v ss = successResponse e v ss"
  by (simp add: successResponse_def)

lemma validate_env [simp]:
  "supabase_env (e\<lparr>insert_error := f\<rparr>) = supabase_env e"
  "auth_user (e\<lparr>insert_error := f\<rparr>) = auth_user e"
  "now (e\<lparr>insert_error := f\<rparr>) = now e"
  "firstFewWords (e\<lparr>insert_error := f\<rparr>) = firstFewWords e"
  "openai (e\<lparr>insert_error := f\<rparr>) = openai e"
  by simp_all

lemma POST_response_insert_error:
  "fst (POST (e\<lparr>insert_error := f\<rparr>) w req) = fst (POST e w req)"
proof (cases rule: POST_try_cases [where req = req and e = e and w = w])
  case no_body
  then show ?thesis by (simp add: POST_conv POST_try_no_body)
next
  case (invalid b x)
  then show ?thesis
    using POST_invalid [of b x] by simp
next
  case (no_env b v)
  then show ?thesis
    using POST_no_env [of b v e w] POST_no_env [of b v "e\<lparr>insert_error := f\<rparr>" w] by simp
next
  case (unauthorized b v)
  then show ?thesis
    using POST_unauthorized [of b v e w] POST_unauthorized [of b v "e\<lparr>insert_error := f\<rparr>" w]
    by simp
next
  case (limited b v uid t)
  then show ?thesis
    using POST_limited [of b v e uid w t] POST_limited [of b v "e\<lparr>insert_error := f\<rparr>" uid w t]
    by simp
next
  case (cached b v uid s)
  then show ?thesis
    using POST_cached [of b v e uid w s] POST_cached [of b v "e\<lparr>insert_error := f\<rparr>" uid w s]
    by simp
next
  case (throws b v uid x)
  then show ?thesis
    using POST_gateway_throws [of e w b v uid x]
      POST_gateway_throws [of "e\<lparr>insert_error := f\<rparr>" w b v uid x]
    by simp
next
  case (no_choice b v uid)
  then show ?thesis
    using POST_no_choice [of e w b v uid] POST_no_choice [of "e\<lparr>insert_error := f\<rparr>" w b v uid]
    by simp
next
  case (generated b v uid a others)
  then show ?thesis
    using POST_generated [of e w b v uid a others]
      POST_generated [of "e\<lparr>insert_error := f\<rparr>" w b v uid a others]
    by simp
qed

lemma POST_table:
  "profile_suggestions (snd (POST e w req)) = profile_suggestions w \<or>
   (\<exists>b v uid a others. req = Some b \<and> generating e w b v uid \<and>
      openai e (buildProfileSuggestionPrompt v) = Inr (a # others) \<and> \<not> insert_error e \<and>
      fst (POST e w req) = successResponse e v (parseSuggestions (orEmpty a)) \<and>
      profile_suggestions (snd (POST e w req)) =
        profile_suggestions w @ [newRow e uid v (parseSuggestions (orEmpty a))])"
proof (cases rule: POST_try_cases [where req = req and e = e and w = w])
  case no_body
  then show ?thesis by (simp add: POST_conv POST_try_no_body)
next
  case (invalid b x)
  then show ?thesis using POST_invalid [of b x e w] by simp
next
  case (no_env b v)
  then show ?thesis using POST_no_env [of b v e w] by simp
next
  case (unauthorized b v)
  then show ?thesis using POST_unauthorized [of b v e w] by simp
next
  case (limited b v uid t)
  then show ?thesis using POST_limited [of b v e uid w t] by simp
next
  case (cached b v uid s)
  then show ?thesis using POST_cached [of b v e uid w s] by simp
next
  case (throws b v uid x)
  then show ?thesis using POST_gateway_throws [of e w b v uid x] by simp
next
  case (no_choice b v uid)
  then show ?thesis using POST_no_choice [of e w b v uid] by simp
next
  case (generated b v uid a others)
  note eq = POST_generated [OF generated(2,3)]
  show ?thesis
  proof (cases "insert_error e")
    case True
    then show ?thesis using generated(1) eq by simp
  next
    case False
    then have "generating e w b v uid \<and>
      openai e (buildProfileSuggestionPrompt v) = Inr (a # others) \<and> \<not> insert_error e \<and>
      fst (POST e w req) = successResponse e v (parseSuggestions (orEmpty a)) \<and>
      profile_suggestions (snd (POST e w req)) =
        profile_suggestions w @ [newRow e uid v (parseSuggestions (orEmpty a))]"
      using generated eq by simp
    then show ?thesis using generated(1) by blast
  qed
qed

lemma response_distinct:
  "unauthorized \<noteq> oncePerDay" "cachedResponse s \<noteq> oncePerDay"
  "successResponse e v ss \<noteq> oncePerDay" "failedToGenerate \<noteq> oncePerDay"
  by (simp_all add: unauthorized_def oncePerDay_def cachedResponse_def successResponse_def
      failedToGenerate_def)

lemma POST_oncePerDay_iff:
  assumes "validate aiPromptSchema b = Inr v" "supabase_env e" "auth_user e = Some uid"
  shows "fst (POST e w (Some b)) = oncePerDay \<longleftrightarrow>
     (\<exists>r \<in> set (profile_suggestions w). user_id r = uid \<and> now e - 86400000 \<le> created_at r)"
proof (cases "recentSuggestion (profile_suggestions w) uid (now e)")
  case (Some t)
  then have "fst (POST e w (Some b)) = oncePerDay"
    using POST_limited [OF assms] by simp
  moreover have "\<exists>r \<in> set (profile_suggestions w). user_id r = uid \<and> now e - 86400000 \<le> created_at r"
    using Some recentSuggestion_None_iff [of "profile_suggestions w" uid "now e"] by auto
  ultimately show ?thesis by simp
next
  case None
  have no: "\<not> (\<exists>r \<in> set (profile_suggestions w). user_id r = uid \<and> now e - 86400000 \<le> created_at r)"
    using None recentSuggestion_None_iff [of "profile_suggestions w" uid "now e"] by simp
  have "fst (POST e w (Some b)) \<noteq> oncePerDay"
  proof (cases "cachedSuggestions (profile_suggestions w) v (firstFewWords e)")
    case (Some s)
    then show ?thesis
      using POST_cached [OF assms None] response_distinct by simp
  next
    case miss: None
    have g: "generating e w b v uid"
      using assms None miss by (simp add: generating_def)
    show ?thesis
    proof (cases "openai e (buildProfileSuggestionPrompt v)")
      case (Inl x)
      then show ?thesis
        using POST_gateway_throws [OF g] response_distinct by simp
    next
      case (Inr cs)
      show ?thesis
      proof (cases cs)
        case Nil
        then show ?thesis
          using Inr POST_no_choice [OF g] response_distinct by simp
      next
        case (Cons a others)
        then show ?thesis
          using Inr POST_generated [OF g, of a others] response_distinct by simp
      qed
    qed
  qed
  then show ?thesis using no by simp
qed

lemma parseSuggestions_fallback:
  "parseSuggestions_try raw = Inl x \<Longrightarrow> parseSuggestions raw = fallbackSuggestions"
  by (simp add: parseSuggestions_def)

lemma cachedSuggestions_Some_D:
  "cachedSuggestions tbl v ffw = Some s \<Longrightarrow> \<exists>r \<in> set tbl. row_suggestions r = s"
proof -
  assume a: "cachedSuggestions tbl v ffw = Some s"
  then obtain rows where rows: "similarRows tbl v ffw = Inr rows"
    by (cases "similarRows tbl v ffw") (simp_all add: cachedSuggestions_def)
  then have sub: "set rows \<subseteq> set tbl"
    by (auto simp: similarRows_def split: sum.splits)
  from a rows obtain r rs where "rows = r # rs" "row_suggestions r = s"
    by (cases rows) (auto simp: cachedSuggestions_def single_take1)
  then show ?thesis
    using sub by auto
qed

section \<open>The cache lookup\<close>

text \<open>None of the three experience levels is a JSON text.\<close>

lemma jsonb_in_levelName:
  "jsonb_in (levelName l) = Inl invalid_text_representation"
proof (cases l)
  case beginner
  have "jsonb_in (levelName beginner) = Inl invalid_text_representation"
    by code_simp
  then show ?thesis using beginner by simp
next
  case intermediate
  have "jsonb_in (levelName intermediate) = Inl invalid_text_representation"
    by code_simp
  then show ?thesis using intermediate by simp
next
  case advanced
  have "jsonb_in (levelName advanced) = Inl invalid_text_representation"
    by code_simp
  then show ?thesis using advanced by simp
qed

lemma eq_jsonb_levelName:
  "eq_jsonb (levelName l) = Inl invalid_text_representation"
  by (simp add: eq_jsonb_def jsonb_in_levelName)

lemma similarRows_error:
  "similarRows tbl v ffw = Inl invalid_text_representation"
  by (simp add: similarRows_def eq_jsonb_levelName)

lemma similarRows_no_rows:
  "similarRows tbl v ffw \<noteq> Inr rows"
  by (simp add: similarRows_def ilike_jsonb_def split: sum.splits)

lemma cachedSuggestions_None:
  "cachedSuggestions tbl v ffw = None"
  by (simp add: cachedSuggestions_def similarRows_error)

lemma generating_iff:
  "generating e w b v uid \<longleftrightarrow>
     validate aiPromptSchema b = Inr v \<and> supabase_env e \<and> auth_user e = Some uid \<and>
     recentSuggestion (profile_suggestions w) uid (now e) = None"
  by (simp add: generating_def cachedSuggestions_None)

lemma cached_member:
  "field (body (cachedResponse s)) ''cached'' = Some (JBool True)"
  "field (body (successResponse e v ss)) ''cached'' = None"
  by (simp_all add: cachedResponse_def successResponse_def)

section \<open>The steps of \<open>markComplete\<close>\<close>

lemma single_Some_iff: "single xs = Some x \<longleftrightarrow> xs = [x]"
  by (cases xs rule: single.cases) auto

lemma getById_Some_iff:
  "getById (Some uid) tbl i = Some current \<longleftrightarrow>
     filter (\<lambda>r. row_id r = i \<and> user_id r = uid) tbl = [current]"
  by (simp add: getById_def single_Some_iff)

lemma filter_map_keep:
  "(\<And>x. P (f x) = P x) \<Longrightarrow> filter P (map f xs) = map f (filter P xs)"
  by (induction xs) auto

lemma filter_singleton_holds:
  "filter P xs = [x] \<Longrightarrow> P x"
proof -
  assume "filter P xs = [x]"
  then have "x \<in> set (filter P xs)" by simp
  then show "P x" by simp
qed

lemma filter_after_update:
  assumes "filter (\<lambda>r. row_id r = i \<and> user_id r = uid) tbl = [current]"
  shows "filter (\<lambda>r. row_id r = i \<and> user_id r = uid)
           (map (\<lambda>r. if row_id r = i \<and> user_id r = uid
                      then r\<lparr>completed_suggestions := cs\<rparr> else r) tbl) =
         [current\<lparr>completed_suggestions := cs\<rparr>]"
proof -
  let ?P = "\<lambda>r. row_id r = i \<and> user_id r = uid"
  let ?f = "\<lambda>r. if ?P r then r\<lparr>completed_suggestions := cs\<rparr> else r"
  have "filter ?P (map ?f tbl) = map ?f (filter ?P tbl)"
    by (rule filter_map_keep) simp
  moreover have "?P current"
    using assms by (rule filter_singleton_holds)
  ultimately show ?thesis
    using assms by simp
qed

lemma markComplete_present:
  assumes "getById (Some uid) tbl i = Some current"
    and "list_ex (\<lambda>c. suggestionId c = sid) (completedOf current)"
  shows "markComplete (Some uid) nowISO tbl i sid n = (Inr current, tbl)"
  using assms by (simp add: markComplete_def)

lemma markComplete_absent:
  assumes "getById (Some uid) tbl i = Some current"
    and "\<not> list_ex (\<lambda>c. suggestionId c = sid) (completedOf current)"
  shows "markComplete (Some uid) nowISO tbl i sid n =
     (Inr (pushCompletion current sid nowISO n),
      map (\<lambda>r. if row_id r = i \<and> user_id r = uid then pushCompletion current sid nowISO n else r)
        tbl)"
proof -
  let ?P = "\<lambda>r. row_id r = i \<and> user_id r = uid"
  let ?cs = "Some (completedOf current @
         [\<lparr>suggestionId = sid, completedAt = nowISO, notes_text = n\<rparr>])"
  let ?f = "\<lambda>r. if ?P r then r\<lparr>completed_suggestions := ?cs\<rparr> else r"
  have one: "filter ?P tbl = [current]"
    using assms(1) by (simp add: getById_Some_iff)
  have only: "r = current" if "r \<in> set tbl" "?P r" for r
  proof -
    have "r \<in> set (filter ?P tbl)" using that by simp
    then show ?thesis unfolding one by simp
  qed
  have same: "map ?f tbl =
      map (\<lambda>r. if ?P r then pushCompletion current sid nowISO n else r) tbl"
    using only by (auto simp: pushCompletion_def)
  have "filter ?P (map ?f tbl) = [current\<lparr>completed_suggestions := ?cs\<rparr>]"
    using one by (rule filter_after_update)
  then have "single (filter ?P (map ?f tbl)) = Some (pushCompletion current sid nowISO n)"
    by (simp add: pushCompletion_def)
  then have "markComplete (Some uid) nowISO tbl i sid n =
      (Inr (pushCompletion current sid nowISO n), map ?f tbl)"
    using assms by (simp add: markComplete_def Let_def)
  then show ?thesis
    unfolding same .
qed

lemma getById_after_push:
  assumes "getById (Some uid) tbl i = Some current"
  shows "getById (Some uid)
     (map (\<lambda>r. if row_id r = i \<and> user_id r = uid then pushCompletion current sid nowISO n else r)
        tbl) i = Some (pushCompletion current sid nowISO n)"
proof -
  let ?P = "\<lambda>r. row_id r = i \<and> user_id r = uid"
  let ?g = "\<lambda>r. if ?P r then pushCompletion current sid nowISO n else r"
  have one: "filter ?P tbl = [current]"
    using assms by (simp add: getById_Some_iff)
  then have pc: "?P current"
    by (rule filter_singleton_holds)
  then have "filter ?P (map ?g tbl) = map ?g (filter ?P tbl)"
    by (intro filter_map_keep) (simp add: pushCompletion_def)
  then have "filter ?P (map ?g tbl) = [pushCompletion current sid nowISO n]"
    using one pc by simp
  then show ?thesis
    by (simp add: getById_Some_iff)
qed

lemma completedOf_push:
  "completedOf (pushCompletion current sid nowISO n) =
     completedOf current @ [\<lparr>suggestionId = sid, completedAt = nowISO, notes_text = n\<rparr>]"
  by (simp add: pushCompletion_def completedOf_def)

lemma markComplete_Inr_D:
  assumes "markComplete user nowISO tbl i sid n = (Inr r, tbl')"
  obtains uid current where "user = Some uid" "getById (Some uid) tbl i = Some current"
proof (cases user)
  case None
  then show ?thesis using assms by (simp add: markComplete_def)
next
  case (Some uid)
  show ?thesis
  proof (cases "getById (Some uid) tbl i")
    case None
    then show ?thesis using assms Some by (simp add: markComplete_def)
  next
    case current: (Some current)
    then show ?thesis using that Some by blast
  qed
qed

lemma markComplete_again:
  assumes "markComplete user nowISO tbl i sid n = (Inr r, tbl')"
  shows "markComplete user nowISO' tbl' i sid n' = (Inr r, tbl') \<and>
     list_ex (\<lambda>c. suggestionId c = sid) (completedOf r)"
proof -
  obtain uid current where u: "user = Some uid" and g: "getById (Some uid) tbl i = Some current"
    using assms by (rule markComplete_Inr_D)
  show ?thesis
  proof (cases "list_ex (\<lambda>c. suggestionId c = sid) (completedOf current)")
    case True
    then have "r = current" "tbl' = tbl"
      using assms u markComplete_present [OF g True, of nowISO n] by simp_all
    then show ?thesis
      using u True markComplete_present [OF g True, of nowISO' n'] by simp
  next
    case False
    let ?p = "pushCompletion current sid nowISO n"
    have r: "r = ?p" "tbl' = map (\<lambda>r. if row_id r = i \<and> user_id r = uid then ?p else r) tbl"
      using assms u markComplete_absent [OF g False, of nowISO n] by simp_all
    have g': "getById (Some uid) tbl' i = Some ?p"
      unfolding r(2) using g by (rule getById_after_push)
    have ex: "list_ex (\<lambda>c. suggestionId c = sid) (completedOf ?p)"
      by (simp add: completedOf_push)
    show ?thesis
      using u r(1) ex markComplete_present [OF g' ex, of nowISO' n'] by simp
  qed
qed

section \<open>The Schema Validator (claim C3)\<close>

text \<open>
  Claim C3, as the code has it. The Schema Validator (\<open>JSON.parse\<close>, then
  \<open>aiResponseSchema.parse\<close>) accepts a candidate and returns its items exactly when the
  candidate parses as a JSON object whose \<open>suggestions\<close> member is an array of 1 to 10
  elements, each an object whose \<open>title\<close>, \<open>reason\<close> and \<open>action\<close> are strings of at least
  one character; the items are these strings, as they are. The schema does not trim: a
  field of white space only is accepted. An empty array is refused with the issue
  \<open>too_small\<close> at \<open>suggestions\<close>, and one element that is not acceptable refuses the
  whole candidate.
\<close>

theorem validate_candidate_accepts:
  "(validate_candidate s = Inr items \<longleftrightarrow>
      (\<exists>kvs es. JSON_parse s = Some (JObject kvs) \<and>
         map_of kvs ''suggestions'' = Some (JArray es) \<and>
         1 \<le> length es \<and> length es \<le> 10 \<and> list_all2 element_ok es items)) \<and>
   (JSON_parse s = Some (JObject kvs') \<and> map_of kvs' ''suggestions'' = Some (JArray []) \<longrightarrow>
      validate_candidate s = Inl (ZodError [Issue too_small [Key ''suggestions'']])) \<and>
   (JSON_parse s = Some (JObject kvs') \<and> map_of kvs' ''suggestions'' = Some (JArray es') \<and>
      e \<in> set es' \<and> (\<forall>it. \<not> element_ok e it) \<longrightarrow>
      (\<exists>x. validate_candidate s = Inl x))"
proof (intro conjI impI)
  show "validate_candidate s = Inr items \<longleftrightarrow>
      (\<exists>kvs es. JSON_parse s = Some (JObject kvs) \<and>
         map_of kvs ''suggestions'' = Some (JArray es) \<and>
         1 \<le> length es \<and> length es \<le> 10 \<and> list_all2 element_ok es items)"
    by (rule validate_candidate_Inr_iff)
next
  assume "JSON_parse s = Some (JObject kvs') \<and> map_of kvs' ''suggestions'' = Some (JArray [])"
  then show "validate_candidate s = Inl (ZodError [Issue too_small [Key ''suggestions'']])"
    using validate_candidate_empty by blast
next
  assume a: "JSON_parse s = Some (JObject kvs') \<and> map_of kvs' ''suggestions'' = Some (JArray es') \<and>
      e \<in> set es' \<and> (\<forall>it. \<not> element_ok e it)"
  have "validate_candidate s \<noteq> Inr items'" for items'
  proof
    assume "validate_candidate s = Inr items'"
    then have "list_all2 element_ok es' items'"
      using a unfolding validate_candidate_Inr_iff by auto
    then show False
      using a by (metis in_set_conv_nth list_all2_conv_all_nth)
  qed
  then show "\<exists>x. validate_candidate s = Inl x"
    by (cases "validate_candidate s") auto
qed

text \<open>
  The theorem at a candidate with two items, at an empty list and at a list whose second
  element has no \<open>action\<close>.
\<close>

theorem validate_candidate_accepts_witness:
  \<open>validate_candidate ''{"suggestions":[{"title":"A","reason":"B","action":"C"},{"title":"D","reason":"E","action":"F","more":1}]}''
     = Inr [\<lparr>title = ''A'', reason = ''B'', action = ''C''\<rparr>,
            \<lparr>title = ''D'', reason = ''E'', action = ''F''\<rparr>] \<and>
   (\<exists>kvs es.
      JSON_parse ''{"suggestions":[{"title":"A","reason":"B","action":"C"},{"title":"D","reason":"E","action":"F","more":1}]}''
        = Some (JObject kvs) \<and>
      map_of kvs ''suggestions'' = Some (JArray es) \<and> 1 \<le> length es \<and> length es \<le> 10 \<and>
      list_all2 element_ok es [\<lparr>title = ''A'', reason = ''B'', action = ''C''\<rparr>,
                               \<lparr>title = ''D'', reason = ''E'', action = ''F''\<rparr>]) \<and>
   validate_candidate ''{"suggestions":[]}''
     = Inl (ZodError [Issue too_small [Key ''suggestions'']]) \<and>
   (\<exists>x. validate_candidate ''{"suggestions":[{"title":"A","reason":"B","action":"C"},{"title":"D","reason":"E"}]}''
     = Inl x)\<close>
proof -
  let ?s1 = \<open>''{"suggestions":[{"title":"A","reason":"B","action":"C"},{"title":"D","reason":"E","action":"F","more":1}]}''\<close>
  let ?items = "[\<lparr>title = ''A'', reason = ''B'', action = ''C''\<rparr>,
                 \<lparr>title = ''D'', reason = ''E'', action = ''F''\<rparr>]"
  let ?s2 = \<open>''{"suggestions":[]}''\<close>
  let ?s3 = \<open>''{"suggestions":[{"title":"A","reason":"B","action":"C"},{"title":"D","reason":"E"}]}''\<close>
  let ?bad = "JObject [(''title'', JString ''D''), (''reason'', JString ''E'')]"
  let ?es3 = "[JObject [(''title'', JString ''A''), (''reason'', JString ''B''),
                 (''action'', JString ''C'')], ?bad]"
  have a: "validate_candidate ?s1 = Inr ?items"
    by code_simp
  have b: "JSON_parse ?s2 = Some (JObject [(''suggestions'', JArray [])]) \<and>
      map_of [(''suggestions'', JArray [])] ''suggestions'' = Some (JArray [])"
    by code_simp
  have c: "JSON_parse ?s3 = Some (JObject [(''suggestions'', JArray ?es3)]) \<and>
      map_of [(''suggestions'', JArray ?es3)] ''suggestions'' = Some (JArray ?es3)"
    by code_simp
  have d: "?bad \<in> set ?es3 \<and> (\<forall>it. \<not> element_ok ?bad it)"
    by simp
  note t1 = validate_candidate_accepts [of ?s1 ?items "[]" "[]" JNull]
  note t2 = validate_candidate_accepts [of ?s2 "[]" "[(''suggestions'', JArray [])]" "[]" JNull]
  note t3 = validate_candidate_accepts [of ?s3 "[]" "[(''suggestions'', JArray ?es3)]" ?es3 ?bad]
  have r1: "\<exists>kvs es. JSON_parse ?s1 = Some (JObject kvs) \<and>
      map_of kvs ''suggestions'' = Some (JArray es) \<and> 1 \<le> length es \<and> length es \<le> 10 \<and>
      list_all2 element_ok es ?items"
    using a t1 by blast
  have r2: "validate_candidate ?s2 = Inl (ZodError [Issue too_small [Key ''suggestions'']])"
    using b t2 by blast
  have r3: "\<exists>x. validate_candidate ?s3 = Inl x"
    using c d t3 by blast
  show ?thesis
    using a r1 r2 r3 by blast
qed

text \<open>
  Claim C3 as stated asks for fields that are non-empty after trimming. A title of one
  space is accepted and stored as it is, and trimming it leaves nothing.
\<close>

theorem validate_candidate_counterexample:
  \<open>validate_candidate ''{"suggestions":[{"title":" ","reason":"r","action":"a"}]}''
     = Inr [\<lparr>title = '' '', reason = ''r'', action = ''a''\<rparr>] \<and>
   trim '' '' = []\<close>
  by code_simp

section \<open>The Response Normalizer (claim C4)\<close>

text \<open>
  Claim C4, as the code has it. For every raw string, the normalizer trims it, then
  deletes every \<open>```json\<close> and then every \<open>```\<close>, each with the line feed behind it if
  there is one, wherever they stand and whether paired or not. Deleting a marker leaves
  a text without the marker as it is, and otherwise keeps the text before the first
  marker, drops the marker and the line feed behind it, and goes on with the rest. What
  is left is a subsequence of the trimmed text with no \<open>```\<close> in it, and is the
  trimmed text itself when that has no \<open>```\<close>. The result is the part of what is left
  from its first \<open>{\<close> to its last \<open>}\<close>, and the failure is \<open>NoJsonFound\<close>, exactly when no
  \<open>{\<close> has a \<open>}\<close> behind it.
\<close>

theorem normalize_response_extracts:
  "cleaned raw = removeFence ''```'' (removeFence ''```json'' (trim raw)) \<and>
   (\<not> sublist lit s \<longrightarrow> removeFence lit s = s) \<and>
   (lit \<noteq> [] \<and> \<not> sublist lit (a @ butlast lit) \<longrightarrow>
      removeFence lit (a @ lit @ rest) = a @ removeFence lit (dropNewline rest)) \<and>
   subseq (cleaned raw) (trim raw) \<and>
   \<not> sublist ''```'' (cleaned raw) \<and>
   (\<not> sublist ''```'' (trim raw) \<longrightarrow> cleaned raw = trim raw) \<and>
   (normalize_response raw = Inr m \<longleftrightarrow>
      (\<exists>pre mid post. cleaned raw = pre @ CHR ''{'' # mid @ CHR ''}'' # post \<and>
         CHR ''{'' \<notin> set pre \<and> CHR ''}'' \<notin> set post \<and> m = CHR ''{'' # mid @ [CHR ''}''])) \<and>
   (normalize_response raw = Inl e \<longleftrightarrow>
      e = NoJsonFound \<and>
      \<not> (\<exists>pre mid post. cleaned raw = pre @ CHR ''{'' # mid @ CHR ''}'' # post))"
proof (intro conjI)
  show "cleaned raw = removeFence ''```'' (removeFence ''```json'' (trim raw))"
    by (simp add: cleaned_def)
  show "\<not> sublist lit s \<longrightarrow> removeFence lit s = s"
    using removeFence_id by blast
  show "lit \<noteq> [] \<and> \<not> sublist lit (a @ butlast lit) \<longrightarrow>
      removeFence lit (a @ lit @ rest) = a @ removeFence lit (dropNewline rest)"
    using removeFence_first by blast
  show "subseq (cleaned raw) (trim raw)"
    by (rule cleaned_subseq)
  show "\<not> sublist ''```'' (cleaned raw)"
    unfolding cleaned_def by (rule removeFence_no_fence)
  show "\<not> sublist ''```'' (trim raw) \<longrightarrow> cleaned raw = trim raw"
    using cleaned_id by blast
  show "normalize_response raw = Inr m \<longleftrightarrow>
      (\<exists>pre mid post. cleaned raw = pre @ CHR ''{'' # mid @ CHR ''}'' # post \<and>
         CHR ''{'' \<notin> set pre \<and> CHR ''}'' \<notin> set post \<and> m = CHR ''{'' # mid @ [CHR ''}''])"
  proof
    assume "normalize_response raw = Inr m"
    then have "matchBraces (cleaned raw) = Some m"
      by (simp add: normalize_response_def split: option.splits)
    then show "\<exists>pre mid post. cleaned raw = pre @ CHR ''{'' # mid @ CHR ''}'' # post \<and>
         CHR ''{'' \<notin> set pre \<and> CHR ''}'' \<notin> set post \<and> m = CHR ''{'' # mid @ [CHR ''}'']"
      by (rule matchBraces_Some_D)
  next
    assume "\<exists>pre mid post. cleaned raw = pre @ CHR ''{'' # mid @ CHR ''}'' # post \<and>
         CHR ''{'' \<notin> set pre \<and> CHR ''}'' \<notin> set post \<and> m = CHR ''{'' # mid @ [CHR ''}'']"
    then have "matchBraces (cleaned raw) = Some m"
      using matchBraces_Some_I by auto
    then show "normalize_response raw = Inr m"
      by (simp add: normalize_response_def)
  qed
  show "normalize_response raw = Inl e \<longleftrightarrow>
      e = NoJsonFound \<and>
      \<not> (\<exists>pre mid post. cleaned raw = pre @ CHR ''{'' # mid @ CHR ''}'' # post)"
    using matchBraces_None_iff [of "cleaned raw"]
    by (auto simp: normalize_response_def split: option.splits)
qed

text \<open>
  The theorem at a fenced answer with prose around it, at bare JSON, at a marker with a
  line feed behind it, and at a text whose braces are in the wrong order.
\<close>

theorem normalize_response_extracts_witness:
  \<open>normalize_response (''Sure: ```json'' @ [CHR 0x0A] @ ''{"a":{"b":1}}'' @ [CHR 0x0A] @ ''``` Bye.  '')
      = Inr ''{"a":{"b":1}}'' \<and>
    (\<exists>pre mid post.
       cleaned (''Sure: ```json'' @ [CHR 0x0A] @ ''{"a":{"b":1}}'' @ [CHR 0x0A] @ ''``` Bye.  '')
         = pre @ CHR ''{'' # mid @ CHR ''}'' # post \<and>
       CHR ''{'' \<notin> set pre \<and> CHR ''}'' \<notin> set post \<and>
       ''{"a":{"b":1}}'' = CHR ''{'' # mid @ [CHR ''}'']) \<and>
    \<not> sublist ''```'' (trim ''  {"a":1} '') \<and> cleaned ''  {"a":1} '' = trim ''  {"a":1} '' \<and>
    removeFence ''```'' (''ab'' @ ''```'' @ (CHR 0x0A # ''cd'')) = ''ab'' @ removeFence ''```'' ''cd'' \<and>
    normalize_response ''}{'' = Inl NoJsonFound \<and>
    \<not> (\<exists>pre mid post. cleaned ''}{'' = pre @ CHR ''{'' # mid @ CHR ''}'' # post)\<close>
proof -
  let ?raw = \<open>''Sure: ```json'' @ [CHR 0x0A] @ ''{"a":{"b":1}}'' @ [CHR 0x0A] @ ''``` Bye.  ''\<close>
  have a: \<open>normalize_response ?raw = Inr ''{"a":{"b":1}}''\<close>
    by code_simp
  have b: \<open>\<not> sublist ''```'' (trim ''  {"a":1} '')\<close>
    by code_simp
  have c: "normalize_response ''}{'' = Inl NoJsonFound"
    by code_simp
  have d: "''```'' \<noteq> [] \<and> \<not> sublist ''```'' (''ab'' @ butlast ''```'')"
    by code_simp
  have n: "dropNewline (CHR 0x0A # ''cd'') = ''cd''"
    by (simp add: dropNewline_def)
  note t1 = normalize_response_extracts [where raw = ?raw and m = \<open>''{"a":{"b":1}}''\<close>]
  note t2 = normalize_response_extracts [where raw = \<open>''  {"a":1} ''\<close>]
  note t3 = normalize_response_extracts [where raw = "''}{''" and e = NoJsonFound]
  note t4 = normalize_response_extracts [where lit = "''```''" and a = "''ab''" and
      rest = "CHR 0x0A # ''cd''"]
  have r1: \<open>\<exists>pre mid post. cleaned ?raw = pre @ CHR ''{'' # mid @ CHR ''}'' # post \<and>
       CHR ''{'' \<notin> set pre \<and> CHR ''}'' \<notin> set post \<and>
       ''{"a":{"b":1}}'' = CHR ''{'' # mid @ [CHR ''}'']\<close>
    using a t1 by blast
  have r2: \<open>cleaned ''  {"a":1} '' = trim ''  {"a":1} ''\<close>
    using b t2 by blast
  have r3: "\<not> (\<exists>pre mid post. cleaned ''}{'' = pre @ CHR ''{'' # mid @ CHR ''}'' # post)"
    using c t3 by blast
  have r4: "removeFence ''```'' (''ab'' @ ''```'' @ (CHR 0x0A # ''cd'')) =
      ''ab'' @ removeFence ''```'' ''cd''"
    using d n t4 by metis
  show ?thesis
    using a b c r1 r2 r3 r4 by blast
qed

text \<open>
  Claim C4 as stated removes paired fence markers only. The code also deletes a single
  marker inside the JSON text: the result is not a part of the input, where the
  normalizer of the specification returns the input.
\<close>

theorem normalize_response_counterexample:
  \<open>normalize_response ''{"a":"```"}'' = Inr ''{"a":""}'' \<and>
   normalize_spec ''{"a":"```"}'' = Inr ''{"a":"```"}''\<close>
  by code_simp

section \<open>The Fallback Generator (claim C7)\<close>

text \<open>
  Claim C7. The fallback is one fixed item. It is what \<open>parseSuggestions\<close> returns
  whenever its try block throws, whatever the input and whatever was thrown, and the
  Schema Validator accepts it and returns it unchanged, both as a value and as JSON text.
\<close>

theorem fallback_roundtrip:
  \<open>length fallbackSuggestions = 1 \<and>
   zod_parse aiResponseSchema
     (JObject [(''suggestions'', JArray (map Suggestion_to_json fallbackSuggestions))])
     = Inr \<lparr>suggestions = fallbackSuggestions\<rparr> \<and>
   validate_candidate ''{"suggestions":[{"title":"Start with Fundamentals","reason":"Building a strong foundation is crucial for long-term growth as a developer.","action":"Complete one online tutorial on core programming concepts this week."}]}''
     = Inr fallbackSuggestions \<and>
   (parseSuggestions_try raw = Inl e \<longrightarrow> parseSuggestions raw = fallbackSuggestions)\<close>
proof (intro conjI impI)
  show "length fallbackSuggestions = 1"
    by (simp add: fallbackSuggestions_def)
  show "zod_parse aiResponseSchema
     (JObject [(''suggestions'', JArray (map Suggestion_to_json fallbackSuggestions))])
     = Inr \<lparr>suggestions = fallbackSuggestions\<rparr>"
    by code_simp
  show \<open>validate_candidate ''{"suggestions":[{"title":"Start with Fundamentals","reason":"Building a strong foundation is crucial for long-term growth as a developer.","action":"Complete one online tutorial on core programming concepts this week."}]}''
     = Inr fallbackSuggestions\<close>
    by code_simp
  show "parseSuggestions raw = fallbackSuggestions" if "parseSuggestions_try raw = Inl e"
    using that by (simp add: parseSuggestions_def)
qed

text \<open>The theorem at a text without braces, where the try block throws \<open>NoJsonFound\<close>.\<close>

theorem fallback_roundtrip_witness:
  "parseSuggestions_try ''no braces here'' = Inl NoJsonFound \<and>
   parseSuggestions ''no braces here'' = fallbackSuggestions \<and>
   length fallbackSuggestions = 1"
proof -
  have a: "parseSuggestions_try ''no braces here'' = Inl NoJsonFound"
    by code_simp
  show ?thesis
    using a fallback_roundtrip [of "''no braces here''" NoJsonFound] by blast
qed

section \<open>Input validation (claim C9)\<close>

text \<open>
  Claim C9. Input validation rejects a background of exactly 9 characters, with the
  issue \<open>too_small\<close> at \<open>userBackground\<close>, and accepts one of exactly 10 characters; an
  accepted background has between 10 and 2000 characters. The check comes first: when
  it fails, the try block throws the validation error and the table and the count of
  model calls are as they were, whatever the table, the clock and the user are, so the
  rate limiter is not consulted and nothing has happened.
\<close>

theorem input_validated_first:
  "(map_of kvs ''userBackground'' = Some (JString b) \<and> length b = 9 \<longrightarrow>
      (\<exists>is. validate aiPromptSchema (JObject kvs) = Inl (ValidationFailed is) \<and>
            Issue too_small [Key ''userBackground''] \<in> set is)) \<and>
   (map_of kvs ''userBackground'' = Some (JString b) \<and> length b = 10 \<and>
    map_of kvs ''currentGoals'' = None \<and>
    map_of kvs ''experienceLevel'' = Some (JString (levelName l)) \<longrightarrow>
      validate aiPromptSchema (JObject kvs) =
        Inr \<lparr>userBackground = trim b, currentGoals = None, experienceLevel = l\<rparr>) \<and>
   (validate aiPromptSchema (JObject kvs) = Inr v \<longrightarrow>
      (\<exists>b'. map_of kvs ''userBackground'' = Some (JString b') \<and> 10 \<le> length b' \<and>
            length b' \<le> 2000)) \<and>
   (validate aiPromptSchema reqBody = Inl x \<longrightarrow> POST_try e w (Some reqBody) = (Inl x, w))"
proof (intro conjI impI)
  assume a: "map_of kvs ''userBackground'' = Some (JString b) \<and> length b = 9"
  then obtain iss where "aiPromptSchema [] (Some (JObject kvs)) = Inl iss"
      "Issue too_small [Key ''userBackground''] \<in> set iss"
    using aiPromptSchema_short [of kvs b] by auto
  then show "\<exists>is. validate aiPromptSchema (JObject kvs) = Inl (ValidationFailed is) \<and>
            Issue too_small [Key ''userBackground''] \<in> set is"
    by (simp add: validate_def)
next
  assume a: "map_of kvs ''userBackground'' = Some (JString b) \<and> length b = 10 \<and>
    map_of kvs ''currentGoals'' = None \<and>
    map_of kvs ''experienceLevel'' = Some (JString (levelName l))"
  have "aiPromptSchema [] (Some (JObject kvs)) =
      Inr \<lparr>userBackground = trim b, currentGoals = None, experienceLevel = l\<rparr>"
    using a by (subst aiPromptSchema_iff) simp
  then show "validate aiPromptSchema (JObject kvs) =
      Inr \<lparr>userBackground = trim b, currentGoals = None, experienceLevel = l\<rparr>"
    by (simp add: validate_def)
next
  assume "validate aiPromptSchema (JObject kvs) = Inr v"
  then have "aiPromptSchema [] (Some (JObject kvs)) = Inr v"
    by (simp add: validate_def split: sum.splits)
  then show "\<exists>b'. map_of kvs ''userBackground'' = Some (JString b') \<and> 10 \<le> length b' \<and>
            length b' \<le> 2000"
    unfolding aiPromptSchema_iff by blast
next
  assume "validate aiPromptSchema reqBody = Inl x"
  then show "POST_try e w (Some reqBody) = (Inl x, w)"
    by (rule POST_try_invalid)
qed

text \<open>The theorem at backgrounds of 9 and of 10 characters.\<close>

theorem input_validated_first_witness:
  "(\<exists>is. validate aiPromptSchema
           (JObject [(''userBackground'', JString ''123456789''),
                     (''experienceLevel'', JString ''beginner'')]) = Inl (ValidationFailed is) \<and>
         Issue too_small [Key ''userBackground''] \<in> set is) \<and>
   validate aiPromptSchema
     (JObject [(''userBackground'', JString ''1234567890''),
               (''experienceLevel'', JString ''beginner'')]) =
     Inr \<lparr>userBackground = ''1234567890'', currentGoals = None, experienceLevel = beginner\<rparr> \<and>
   POST_try ex_env ex_world
     (Some (JObject [(''userBackground'', JString ''123456789''),
                     (''experienceLevel'', JString ''beginner'')])) =
     (Inl (ValidationFailed [Issue too_small [Key ''userBackground'']]), ex_world)"
proof -
  let ?k9 = "[(''userBackground'', JString ''123456789''),
              (''experienceLevel'', JString ''beginner'')]"
  let ?k10 = "[(''userBackground'', JString ''1234567890''),
               (''experienceLevel'', JString ''beginner'')]"
  let ?x = "ValidationFailed [Issue too_small [Key ''userBackground'']]"
  have a: "map_of ?k9 ''userBackground'' = Some (JString ''123456789'') \<and>
      length ''123456789'' = 9"
    by simp
  have b: "map_of ?k10 ''userBackground'' = Some (JString ''1234567890'') \<and>
      length ''1234567890'' = 10 \<and> map_of ?k10 ''currentGoals'' = None \<and>
      map_of ?k10 ''experienceLevel'' = Some (JString (levelName beginner))"
    by (simp add: levelName_def)
  have c: "validate aiPromptSchema (JObject ?k9) = Inl ?x"
    by code_simp
  have d: "trim ''1234567890'' = ''1234567890''"
    by code_simp
  note t1 = input_validated_first [of ?k9 "''123456789''" beginner
      ex_input "JObject ?k9" ?x ex_env ex_world]
  note t2 = input_validated_first [of ?k10 "''1234567890''" beginner
      ex_input "JObject ?k9" ?x ex_env ex_world]
  show ?thesis
    using a b c d t1 t2 by simp
qed

section \<open>Persistence (claim C1)\<close>

text \<open>
  Claim C1, as the code has it. A failure of the insert is logged and ignored
  (\<open>Continue anyway - don't fail just because storage failed\<close>): the response is the one
  the request gets when the insert succeeds, and nothing is stored. A request that reaches
  the model and gets a choice back answers with the success response; it stores exactly
  one record when the insert succeeds and none when it fails. Every other path stores
  nothing, so a request stores at most one record, and only together with a success
  response that is not a cached one.
\<close>

theorem insert_failure_is_ignored:
  "fst (POST (e\<lparr>insert_error := True\<rparr>) w req) = fst (POST (e\<lparr>insert_error := False\<rparr>) w req) \<and>
   (insert_error e \<longrightarrow> profile_suggestions (snd (POST e w req)) = profile_suggestions w) \<and>
   (generating e w reqBody v uid \<and>
    openai e (buildProfileSuggestionPrompt v) = Inr (a # others) \<longrightarrow>
      fst (POST e w (Some reqBody)) = successResponse e v (parseSuggestions (orEmpty a)) \<and>
      profile_suggestions (snd (POST e w (Some reqBody))) =
        (if insert_error e then profile_suggestions w
         else profile_suggestions w @ [newRow e uid v (parseSuggestions (orEmpty a))])) \<and>
   (profile_suggestions (snd (POST e w req)) = profile_suggestions w \<or>
    (\<exists>r. profile_suggestions (snd (POST e w req)) = profile_suggestions w @ [r] \<and>
         \<not> insert_error e \<and> status (fst (POST e w req)) = 200 \<and>
         field (body (fst (POST e w req))) ''cached'' = None))"
proof (intro conjI impI)
  show "fst (POST (e\<lparr>insert_error := True\<rparr>) w req) = fst (POST (e\<lparr>insert_error := False\<rparr>) w req)"
    by (simp add: POST_response_insert_error)
  show "profile_suggestions (snd (POST e w req)) = profile_suggestions w" if "insert_error e"
    using POST_table [of e w req] that by blast
  show "fst (POST e w (Some reqBody)) = successResponse e v (parseSuggestions (orEmpty a))"
    if "generating e w reqBody v uid \<and>
        openai e (buildProfileSuggestionPrompt v) = Inr (a # others)"
    using that POST_generated [of e w reqBody v uid a others] by simp
  show "profile_suggestions (snd (POST e w (Some reqBody))) =
        (if insert_error e then profile_suggestions w
         else profile_suggestions w @ [newRow e uid v (parseSuggestions (orEmpty a))])"
    if "generating e w reqBody v uid \<and>
        openai e (buildProfileSuggestionPrompt v) = Inr (a # others)"
    using that POST_generated [of e w reqBody v uid a others] by simp
  show "profile_suggestions (snd (POST e w req)) = profile_suggestions w \<or>
    (\<exists>r. profile_suggestions (snd (POST e w req)) = profile_suggestions w @ [r] \<and>
         \<not> insert_error e \<and> status (fst (POST e w req)) = 200 \<and>
         field (body (fst (POST e w req))) ''cached'' = None)"
    using POST_table [of e w req] by (auto simp: successResponse_def)
qed


text \<open>The theorem at the example request, with the insert failing and succeeding.\<close>

theorem insert_failure_is_ignored_witness:
  "fst (POST (ex_env\<lparr>insert_error := True\<rparr>) ex_world (Some ex_body)) =
     successResponse ex_env ex_input [\<lparr>title = ''A'', reason = ''B'', action = ''C''\<rparr>] \<and>
   fst (POST ex_env ex_world (Some ex_body)) =
     fst (POST (ex_env\<lparr>insert_error := True\<rparr>) ex_world (Some ex_body)) \<and>
   profile_suggestions (snd (POST (ex_env\<lparr>insert_error := True\<rparr>) ex_world (Some ex_body))) = [] \<and>
   profile_suggestions (snd (POST ex_env ex_world (Some ex_body))) =
     [newRow ex_env ''user-1'' ex_input [\<lparr>title = ''A'', reason = ''B'', action = ''C''\<rparr>]]"
proof -
  let ?a = \<open>Some ''{"suggestions":[{"title":"A","reason":"B","action":"C"}]}''\<close>
  let ?f = "ex_env\<lparr>insert_error := True\<rparr>"
  have g: "generating ex_env ex_world ex_body ex_input ''user-1''"
    by code_simp
  have g': "generating ?f ex_world ex_body ex_input ''user-1''"
    by code_simp
  have o: "openai ex_env (buildProfileSuggestionPrompt ex_input) = Inr [?a]"
    by (simp add: ex_env_def)
  have o': "openai ?f (buildProfileSuggestionPrompt ex_input) = Inr [?a]"
    by (simp add: ex_env_def)
  have p: "parseSuggestions (orEmpty ?a) = [\<lparr>title = ''A'', reason = ''B'', action = ''C''\<rparr>]"
    by code_simp
  have i: "\<not> insert_error ex_env" "insert_error ?f" "profile_suggestions ex_world = []"
    by (simp_all add: ex_env_def ex_world_def)
  have s: "successResponse ?f ex_input [\<lparr>title = ''A'', reason = ''B'', action = ''C''\<rparr>] =
      successResponse ex_env ex_input [\<lparr>title = ''A'', reason = ''B'', action = ''C''\<rparr>]"
    by (simp add: successResponse_def)
  have e: "?f\<lparr>insert_error := True\<rparr> = ?f" "?f\<lparr>insert_error := False\<rparr> = ex_env"
    by (simp_all add: ex_env_def)
  note t1 = insert_failure_is_ignored [of ex_env ex_world "Some ex_body" ex_body ex_input
      "''user-1''" ?a "[]"]
  note t2 = insert_failure_is_ignored [of ?f ex_world "Some ex_body" ex_body ex_input
      "''user-1''" ?a "[]"]
  show ?thesis
    using g g' o o' p i s e t1 t2 by simp
qed

text \<open>
  Claim C1 as stated makes the request fail when the insert fails. On the example
  request with a failing insert the caller gets status 200 with the suggestions, and the
  table stays empty.
\<close>

theorem insert_failure_counterexample:
  "POST (ex_env\<lparr>insert_error := True\<rparr>) ex_world (Some ex_body) =
     (\<lparr>status = 200,
       body = JObject
         [(''success'', JBool True),
          (''suggestions'', JArray [JObject [(''title'', JString ''A''),
             (''reason'', JString ''B''), (''action'', JString ''C'')]]),
          (''metadata'', JObject [(''experienceLevel'', JString ''beginner''),
             (''timestamp'', JString ''2026-01-08T19:20:00.000Z'')])]\<rparr>,
      \<lparr>profile_suggestions = [], openai_calls = 1\<rparr>)"
  by code_simp

section \<open>The Rate Limiter (claim C2)\<close>

text \<open>
  Claim C2, as the code has it. For a valid request of a known user, the answer is the
  rate-limit response exactly when the table has a record of this user whose
  \<open>created_at\<close> is at most 24 hours old, and then nothing else happens. The response
  is status 429 with one fixed error message: it carries no \<open>retryAfterSeconds\<close> and
  nothing else that depends on the time left. Of two calls of one user that are at most
  24 hours apart, the first succeeds when it reaches the model and gets a choice back,
  and the second is denied when the insert of the first succeeded.
\<close>

theorem rate_limit_denies:
  "(validate aiPromptSchema reqBody = Inr v \<and> supabase_env e \<and> auth_user e = Some uid \<longrightarrow>
      (fst (POST e w (Some reqBody)) = oncePerDay) =
        (\<exists>r \<in> set (profile_suggestions w).
           user_id r = uid \<and> now e - 86400000 \<le> created_at r)) \<and>
   (validate aiPromptSchema reqBody = Inr v \<and> supabase_env e \<and> auth_user e = Some uid \<and>
    r \<in> set (profile_suggestions w) \<and> user_id r = uid \<and> now e - 86400000 \<le> created_at r \<longrightarrow>
      POST e w (Some reqBody) = (oncePerDay, w)) \<and>
   oncePerDay =
     \<lparr>status = 429,
      body = JObject [(''error'', JString ''You can only get suggestions once per day'')]\<rparr> \<and>
   (generating e w reqBody v uid \<and>
    openai e (buildProfileSuggestionPrompt v) = Inr (a # others) \<and> \<not> insert_error e \<and>
    validate aiPromptSchema reqBody' = Inr v' \<and> supabase_env e' \<and> auth_user e' = Some uid \<and>
    now e' - 86400000 \<le> now e \<longrightarrow>
      fst (POST e w (Some reqBody)) = successResponse e v (parseSuggestions (orEmpty a)) \<and>
      POST e' (snd (POST e w (Some reqBody))) (Some reqBody') =
        (oncePerDay, snd (POST e w (Some reqBody))))"
proof (intro conjI impI)
  show "(fst (POST e w (Some reqBody)) = oncePerDay) =
        (\<exists>r \<in> set (profile_suggestions w).
           user_id r = uid \<and> now e - 86400000 \<le> created_at r)"
    if "validate aiPromptSchema reqBody = Inr v \<and> supabase_env e \<and> auth_user e = Some uid"
    using that POST_oncePerDay_iff by blast
next
  assume a: "validate aiPromptSchema reqBody = Inr v \<and> supabase_env e \<and> auth_user e = Some uid \<and>
    r \<in> set (profile_suggestions w) \<and> user_id r = uid \<and> now e - 86400000 \<le> created_at r"
  then have "recentSuggestion (profile_suggestions w) uid (now e) \<noteq> None"
    using recentSuggestion_None_iff [of "profile_suggestions w" uid "now e"] by blast
  then obtain t where "recentSuggestion (profile_suggestions w) uid (now e) = Some t"
    by blast
  then show "POST e w (Some reqBody) = (oncePerDay, w)"
    using a POST_limited by blast
next
  show "oncePerDay =
     \<lparr>status = 429,
      body = JObject [(''error'', JString ''You can only get suggestions once per day'')]\<rparr>"
    by (simp add: oncePerDay_def)
next
  assume a: "generating e w reqBody v uid \<and>
    openai e (buildProfileSuggestionPrompt v) = Inr (a # others) \<and> \<not> insert_error e \<and>
    validate aiPromptSchema reqBody' = Inr v' \<and> supabase_env e' \<and> auth_user e' = Some uid \<and>
    now e' - 86400000 \<le> now e"
  then show "fst (POST e w (Some reqBody)) = successResponse e v (parseSuggestions (orEmpty a))"
    using POST_generated [of e w reqBody v uid a others] by simp
next
  assume a: "generating e w reqBody v uid \<and>
    openai e (buildProfileSuggestionPrompt v) = Inr (a # others) \<and> \<not> insert_error e \<and>
    validate aiPromptSchema reqBody' = Inr v' \<and> supabase_env e' \<and> auth_user e' = Some uid \<and>
    now e' - 86400000 \<le> now e"
  let ?w1 = "snd (POST e w (Some reqBody))"
  let ?row = "newRow e uid v (parseSuggestions (orEmpty a))"
  have "profile_suggestions ?w1 = profile_suggestions w @ [?row]"
    using a POST_generated [of e w reqBody v uid a others] by simp
  then have "?row \<in> set (profile_suggestions ?w1)"
    by simp
  moreover have "user_id ?row = uid \<and> now e' - 86400000 \<le> created_at ?row"
    using a by (simp add: newRow_def)
  ultimately have "recentSuggestion (profile_suggestions ?w1) uid (now e') \<noteq> None"
    using recentSuggestion_None_iff [of "profile_suggestions ?w1" uid "now e'"] by blast
  then obtain t where "recentSuggestion (profile_suggestions ?w1) uid (now e') = Some t"
    by blast
  then show "POST e' ?w1 (Some reqBody') = (oncePerDay, ?w1)"
    using a POST_limited by blast
qed

text \<open>
  The theorem at the example request: the first call succeeds, a second call one second
  later is denied, and a call more than 24 hours later is not.
\<close>

theorem rate_limit_denies_witness:
  "fst (POST ex_env ex_world (Some ex_body)) =
     successResponse ex_env ex_input [\<lparr>title = ''A'', reason = ''B'', action = ''C''\<rparr>] \<and>
   POST (ex_env\<lparr>now := 1767900001000\<rparr>) (snd (POST ex_env ex_world (Some ex_body))) (Some ex_body) =
     (oncePerDay, snd (POST ex_env ex_world (Some ex_body))) \<and>
   fst (POST (ex_env\<lparr>now := 1767900000000 + 86400001\<rparr>)
     (snd (POST ex_env ex_world (Some ex_body))) (Some ex_body)) \<noteq> oncePerDay"
proof -
  let ?a = \<open>Some ''{"suggestions":[{"title":"A","reason":"B","action":"C"}]}''\<close>
  let ?e1 = "ex_env\<lparr>now := 1767900001000\<rparr>"
  let ?e2 = "ex_env\<lparr>now := 1767900000000 + 86400001\<rparr>"
  let ?w1 = "snd (POST ex_env ex_world (Some ex_body))"
  let ?row = "newRow ex_env ''user-1'' ex_input [\<lparr>title = ''A'', reason = ''B'', action = ''C''\<rparr>]"
  have g: "generating ex_env ex_world ex_body ex_input ''user-1''"
    by code_simp
  have o: "openai ex_env (buildProfileSuggestionPrompt ex_input) = Inr [?a]"
    by (simp add: ex_env_def)
  have p: "parseSuggestions (orEmpty ?a) = [\<lparr>title = ''A'', reason = ''B'', action = ''C''\<rparr>]"
    by code_simp
  have v: "validate aiPromptSchema ex_body = Inr ex_input"
    by code_simp
  have i: "\<not> insert_error ex_env" "supabase_env ?e1" "auth_user ?e1 = Some ''user-1''"
      "now ?e1 - 86400000 \<le> now ex_env" "supabase_env ?e2" "auth_user ?e2 = Some ''user-1''"
    by (simp_all add: ex_env_def)
  have w1: "profile_suggestions ?w1 = [?row]"
    using POST_generated [OF g o] i(1) p by (simp add: ex_world_def)
  have far: "\<not> (\<exists>r \<in> set (profile_suggestions ?w1).
      user_id r = ''user-1'' \<and> now ?e2 - 86400000 \<le> created_at r)"
    unfolding w1 by (simp add: newRow_def ex_env_def)
  note t1 = rate_limit_denies [of ex_body ex_input ex_env "''user-1''" ex_world ?row ?a "[]"
      ex_body ex_input ?e1]
  note t2 = rate_limit_denies [of ex_body ex_input ?e2 "''user-1''" ?w1 ?row ?a "[]"
      ex_body ex_input ?e1]
  have r1: "fst (POST ex_env ex_world (Some ex_body)) =
      successResponse ex_env ex_input (parseSuggestions (orEmpty ?a)) \<and>
      POST ?e1 ?w1 (Some ex_body) = (oncePerDay, ?w1)"
    using g o v i t1 by blast
  have r2: "fst (POST ?e2 ?w1 (Some ex_body)) \<noteq> oncePerDay"
    using v i far t2 by blast
  show ?thesis
    using r1 r2 p by simp
qed

text \<open>
  Claim C2 as stated has the denial carry the time left. One hour and 23 hours after
  the first call the denial is the same response, and its body has the error message
  only.
\<close>

theorem rate_limit_counterexample:
  "fst (POST (ex_env\<lparr>now := 1767900000000 + 3600000\<rparr>)
        (snd (POST ex_env ex_world (Some ex_body))) (Some ex_body)) =
     \<lparr>status = 429,
      body = JObject [(''error'', JString ''You can only get suggestions once per day'')]\<rparr> \<and>
   fst (POST (ex_env\<lparr>now := 1767900000000 + 82800000\<rparr>)
        (snd (POST ex_env ex_world (Some ex_body))) (Some ex_body)) =
     \<lparr>status = 429,
      body = JObject [(''error'', JString ''You can only get suggestions once per day'')]\<rparr>"
  by code_simp

section \<open>The fallback path in the response (claim C6)\<close>

text \<open>
  Claim C6, as the code has it. When the answer of the model cannot be normalized or
  validated, the request succeeds with the fallback item, and the response is the
  ordinary success response: its members are \<open>success\<close>, \<open>suggestions\<close> and \<open>metadata\<close>,
  it has no \<open>degraded\<close> flag, and it is the response that a model answer with the same
  items gets. A failure of the completion call itself is not recovered: the exception
  leaves the try block after the call was counted, nothing is stored, and the caller
  gets the error response of the catch block.
\<close>

theorem fallback_is_unlabelled:
  "(generating e w reqBody v uid \<and>
    openai e (buildProfileSuggestionPrompt v) = Inr (a # others) \<and>
    parseSuggestions_try (orEmpty a) = Inl x \<longrightarrow>
      fst (POST e w (Some reqBody)) = successResponse e v fallbackSuggestions) \<and>
   field (body (successResponse e v ss)) ''degraded'' = None \<and>
   (\<exists>s m. body (successResponse e v ss) =
      JObject [(''success'', JBool True), (''suggestions'', s), (''metadata'', m)]) \<and>
   (generating e w reqBody v uid \<and> openai e (buildProfileSuggestionPrompt v) = Inl x \<longrightarrow>
      POST_try e w (Some reqBody) = (Inl x, w\<lparr>openai_calls := openai_calls w + 1\<rparr>) \<and>
      POST e w (Some reqBody) = (failedToGenerate, w\<lparr>openai_calls := openai_calls w + 1\<rparr>))"
proof (intro conjI impI)
  assume a: "generating e w reqBody v uid \<and>
    openai e (buildProfileSuggestionPrompt v) = Inr (a # others) \<and>
    parseSuggestions_try (orEmpty a) = Inl x"
  then have "parseSuggestions (orEmpty a) = fallbackSuggestions"
    using parseSuggestions_fallback by blast
  then show "fst (POST e w (Some reqBody)) = successResponse e v fallbackSuggestions"
    using a POST_generated [of e w reqBody v uid a others] by simp
next
  show "field (body (successResponse e v ss)) ''degraded'' = None"
    by (simp add: successResponse_def)
next
  show "\<exists>s m. body (successResponse e v ss) =
      JObject [(''success'', JBool True), (''suggestions'', s), (''metadata'', m)]"
    by (simp add: successResponse_def)
next
  assume "generating e w reqBody v uid \<and> openai e (buildProfileSuggestionPrompt v) = Inl x"
  then show "POST_try e w (Some reqBody) = (Inl x, w\<lparr>openai_calls := openai_calls w + 1\<rparr>)"
    using POST_try_gateway_throws by blast
next
  assume "generating e w reqBody v uid \<and> openai e (buildProfileSuggestionPrompt v) = Inl x"
  then show "POST e w (Some reqBody) = (failedToGenerate, w\<lparr>openai_calls := openai_calls w + 1\<rparr>)"
    using POST_gateway_throws by blast
qed

text \<open>
  The theorem at the example request, once with a model answer without JSON and once
  with a completion call that throws.
\<close>

theorem fallback_is_unlabelled_witness:
  "fst (POST (ex_env\<lparr>openai := (\<lambda>prompt. Inr [Some ''Sorry, I cannot help with that.''])\<rparr>)
         ex_world (Some ex_body)) =
     successResponse ex_env ex_input fallbackSuggestions \<and>
   POST (ex_env\<lparr>openai := (\<lambda>prompt. Inl GatewayError)\<rparr>) ex_world (Some ex_body) =
     (failedToGenerate, ex_world\<lparr>openai_calls := 1\<rparr>)"
proof -
  let ?a = "Some ''Sorry, I cannot help with that.''"
  let ?e1 = "ex_env\<lparr>openai := (\<lambda>prompt. Inr [?a])\<rparr>"
  let ?e2 = "ex_env\<lparr>openai := (\<lambda>prompt. Inl GatewayError)\<rparr>"
  have g1: "generating ?e1 ex_world ex_body ex_input ''user-1''"
    by code_simp
  have g2: "generating ?e2 ex_world ex_body ex_input ''user-1''"
    by code_simp
  have o1: "openai ?e1 (buildProfileSuggestionPrompt ex_input) = Inr [?a]"
    by simp
  have o2: "openai ?e2 (buildProfileSuggestionPrompt ex_input) = Inl GatewayError"
    by simp
  have p: "parseSuggestions_try (orEmpty ?a) = Inl NoJsonFound"
    by code_simp
  have s: "successResponse ?e1 ex_input fallbackSuggestions =
      successResponse ex_env ex_input fallbackSuggestions"
    by (simp add: successResponse_def)
  have c: "openai_calls ex_world + 1 = 1"
    by (simp add: ex_world_def)
  note t1 = fallback_is_unlabelled [of ?e1 ex_world ex_body ex_input "''user-1''" ?a "[]"
      NoJsonFound "[]"]
  note t2 = fallback_is_unlabelled [of ?e2 ex_world ex_body ex_input "''user-1''" ?a "[]"
      GatewayError "[]"]
  show ?thesis
    using g1 g2 o1 o2 p s c t1 t2 by simp
qed

text \<open>
  Claim C6 as stated labels every fallback result and never surfaces a failure of the
  completion call. The response with the fallback item has no label, and a completion
  call that throws gives status 500.
\<close>

theorem fallback_is_unlabelled_counterexample:
  "fst (POST (ex_env\<lparr>openai := (\<lambda>prompt. Inr [Some ''Sorry, I cannot help with that.''])\<rparr>)
         ex_world (Some ex_body)) =
     \<lparr>status = 200,
      body = JObject
        [(''success'', JBool True),
         (''suggestions'', JArray [JObject
            [(''title'', JString ''Start with Fundamentals''),
             (''reason'', JString ''Building a strong foundation is crucial for long-term growth as a developer.''),
             (''action'', JString ''Complete one online tutorial on core programming concepts this week.'')]]),
         (''metadata'', JObject [(''experienceLevel'', JString ''beginner''),
            (''timestamp'', JString ''2026-01-08T19:20:00.000Z'')])]\<rparr> \<and>
   fst (POST (ex_env\<lparr>openai := (\<lambda>prompt. Inl GatewayError)\<rparr>) ex_world (Some ex_body)) =
     \<lparr>status = 500, body = JObject [(''error'', JString ''Failed to generate suggestions'')]\<rparr>"
  by code_simp

section \<open>The outcomes of a request (claim C8)\<close>

text \<open>
  Claim C8, as the code has it. The parse stage is total: for every raw model string
  \<open>parseSuggestions\<close> returns between 1 and 10 items. A valid request ends in one of
  five ways: status 401 when no user is signed in; the rate-limit response; a cached
  response with the stored suggestions of a record; a success response with 1 to 10
  items; or the error response of the catch block, which is given when the Supabase
  environment is missing, when the completion call throws and when it returns no choice.
\<close>

theorem request_outcomes:
  "1 \<le> length (parseSuggestions raw) \<and> length (parseSuggestions raw) \<le> 10 \<and>
   (validate aiPromptSchema reqBody = Inr v \<longrightarrow>
      fst (POST e w (Some reqBody)) = unauthorized \<and> auth_user e = None \<or>
      fst (POST e w (Some reqBody)) = oncePerDay \<or>
      (\<exists>r. r \<in> set (profile_suggestions w) \<and>
           fst (POST e w (Some reqBody)) = cachedResponse (row_suggestions r)) \<or>
      (\<exists>ss. fst (POST e w (Some reqBody)) = successResponse e v ss \<and>
            1 \<le> length ss \<and> length ss \<le> 10) \<or>
      fst (POST e w (Some reqBody)) = failedToGenerate \<and>
        (\<not> supabase_env e \<or> (\<exists>x. openai e (buildProfileSuggestionPrompt v) = Inl x) \<or>
         openai e (buildProfileSuggestionPrompt v) = Inr []))"
proof (intro conjI impI)
  show "1 \<le> length (parseSuggestions raw)" "length (parseSuggestions raw) \<le> 10"
    using parseSuggestions_length by blast+
next
  assume v: "validate aiPromptSchema reqBody = Inr v"
  show "fst (POST e w (Some reqBody)) = unauthorized \<and> auth_user e = None \<or>
      fst (POST e w (Some reqBody)) = oncePerDay \<or>
      (\<exists>r. r \<in> set (profile_suggestions w) \<and>
           fst (POST e w (Some reqBody)) = cachedResponse (row_suggestions r)) \<or>
      (\<exists>ss. fst (POST e w (Some reqBody)) = successResponse e v ss \<and>
            1 \<le> length ss \<and> length ss \<le> 10) \<or>
      fst (POST e w (Some reqBody)) = failedToGenerate \<and>
        (\<not> supabase_env e \<or> (\<exists>x. openai e (buildProfileSuggestionPrompt v) = Inl x) \<or>
         openai e (buildProfileSuggestionPrompt v) = Inr [])"
  proof (cases rule: POST_try_cases [where req = "Some reqBody" and e = e and w = w])
    case no_body
    then show ?thesis by simp
  next
    case (invalid b x)
    then show ?thesis using v by simp
  next
    case (no_env b v')
    then show ?thesis using POST_no_env [of b v' e w] by simp
  next
    case (unauthorized b v')
    then show ?thesis using POST_unauthorized [of b v' e w] by simp
  next
    case (limited b v' uid t)
    then show ?thesis using POST_limited [of b v' e uid w t] by simp
  next
    case (cached b v' uid s)
    then obtain r where "r \<in> set (profile_suggestions w)" "row_suggestions r = s"
      using cachedSuggestions_Some_D by blast
    then show ?thesis using cached POST_cached [of b v' e uid w s] by auto
  next
    case (throws b v' uid x)
    then have "v' = v" using v by (simp add: generating_def)
    then show ?thesis using throws POST_gateway_throws [of e w b v uid x] by auto
  next
    case (no_choice b v' uid)
    then have "v' = v" using v by (simp add: generating_def)
    then show ?thesis using no_choice POST_no_choice [of e w b v uid] by auto
  next
    case (generated b v' uid a others)
    then have "v' = v" using v by (simp add: generating_def)
    then have "fst (POST e w (Some reqBody)) = successResponse e v (parseSuggestions (orEmpty a))"
      using generated POST_generated [of e w b v uid a others] by simp
    then show ?thesis using parseSuggestions_length [of "orEmpty a"] by blast
  qed
qed

text \<open>The theorem at the example request and at a text that is not JSON.\<close>

theorem request_outcomes_witness:
  "fst (POST ex_env ex_world (Some ex_body)) =
     successResponse ex_env ex_input [\<lparr>title = ''A'', reason = ''B'', action = ''C''\<rparr>] \<and>
   length (parseSuggestions ''not json'') = 1"
proof -
  have v: "validate aiPromptSchema ex_body = Inr ex_input"
    by code_simp
  have r: "fst (POST ex_env ex_world (Some ex_body)) =
     successResponse ex_env ex_input [\<lparr>title = ''A'', reason = ''B'', action = ''C''\<rparr>]"
    by code_simp
  have l: "length (parseSuggestions ''not json'') = 1"
    by code_simp
  note t = request_outcomes [of "''not json''" ex_body ex_input ex_env ex_world]
  have "fst (POST ex_env ex_world (Some ex_body)) = unauthorized \<and> auth_user ex_env = None \<or>
      fst (POST ex_env ex_world (Some ex_body)) = oncePerDay \<or>
      (\<exists>r. r \<in> set (profile_suggestions ex_world) \<and>
           fst (POST ex_env ex_world (Some ex_body)) = cachedResponse (row_suggestions r)) \<or>
      (\<exists>ss. fst (POST ex_env ex_world (Some ex_body)) = successResponse ex_env ex_input ss \<and>
            1 \<le> length ss \<and> length ss \<le> 10) \<or>
      fst (POST ex_env ex_world (Some ex_body)) = failedToGenerate \<and>
        (\<not> supabase_env ex_env \<or>
         (\<exists>x. openai ex_env (buildProfileSuggestionPrompt ex_input) = Inl x) \<or>
         openai ex_env (buildProfileSuggestionPrompt ex_input) = Inr [])"
    using v t by blast
  then show ?thesis
    using r l by simp
qed

text \<open>
  Claim C8 as stated allows a valid request a success or a quota or input error only.
  The example request is valid; when the completion call throws, the exception leaves
  the try block and the caller gets status 500 with a general message.
\<close>

theorem request_outcomes_counterexample:
  "validate aiPromptSchema ex_body = Inr ex_input \<and>
   POST_try (ex_env\<lparr>openai := (\<lambda>prompt. Inl GatewayError)\<rparr>) ex_world (Some ex_body) =
     (Inl GatewayError, \<lparr>profile_suggestions = [], openai_calls = 1\<rparr>) \<and>
   POST (ex_env\<lparr>openai := (\<lambda>prompt. Inl GatewayError)\<rparr>) ex_world (Some ex_body) =
     (\<lparr>status = 500, body = JObject [(''error'', JString ''Failed to generate suggestions'')]\<rparr>,
      \<lparr>profile_suggestions = [], openai_calls = 1\<rparr>)"
  by code_simp

section \<open>The Similarity Cache (claim C5)\<close>

text \<open>
  Claim C5 on the code. The caching snippet means to reuse stored suggestions: it looks
  for a record of the same experience level whose background is like \<open>firstFewWords\<close> and
  answers with its suggestions and \<open>cached: true\<close>. Its two filters select with \<open>->\<close>, so
  they compare \<open>jsonb\<close> values: the experience level of a valid request is never a JSON
  text, and \<open>ILIKE\<close> has no operator for \<open>jsonb\<close>. For every table, every valid input and
  every value of \<open>firstFewWords\<close> the lookup is an error and gives no data. So a valid
  request of a known user that is not rate limited always calls the model: when a choice
  comes back, the answer is the success response of Step 6 (it has no \<open>cached\<close>
  member), the model has been called once more, and a new record is stored unless the
  insert fails. That holds also when a stored record has the very input of the request.
\<close>

theorem cache_lookup_fails:
  "eq_jsonb (levelName (experienceLevel v)) = Inl invalid_text_representation \<and>
   ilike_jsonb (''%'' @ ffw @ ''%'') = Inl undefined_function \<and>
   cachedSuggestions tbl v ffw = None \<and>
   (validate aiPromptSchema reqBody = Inr v \<and> supabase_env e \<and> auth_user e = Some uid \<and>
    recentSuggestion (profile_suggestions w) uid (now e) = None \<and>
    openai e (buildProfileSuggestionPrompt v) = Inr (aiResponse # others) \<longrightarrow>
      POST e w (Some reqBody) =
        (successResponse e v (parseSuggestions (orEmpty aiResponse)),
         if insert_error e then w\<lparr>openai_calls := openai_calls w + 1\<rparr>
         else w\<lparr>openai_calls := openai_calls w + 1,
                profile_suggestions :=
                  profile_suggestions w @
                    [newRow e uid v (parseSuggestions (orEmpty aiResponse))]\<rparr>) \<and>
      field (body (fst (POST e w (Some reqBody)))) ''cached'' = None \<and>
      openai_calls (snd (POST e w (Some reqBody))) = openai_calls w + 1)"
proof (intro conjI impI)
  show "eq_jsonb (levelName (experienceLevel v)) = Inl invalid_text_representation"
    by (rule eq_jsonb_levelName)
  show "ilike_jsonb (''%'' @ ffw @ ''%'') = Inl undefined_function"
    by (simp add: ilike_jsonb_def)
  show "cachedSuggestions tbl v ffw = None"
    by (rule cachedSuggestions_None)
next
  assume a: "validate aiPromptSchema reqBody = Inr v \<and> supabase_env e \<and> auth_user e = Some uid \<and>
    recentSuggestion (profile_suggestions w) uid (now e) = None \<and>
    openai e (buildProfileSuggestionPrompt v) = Inr (aiResponse # others)"
  then have g: "generating e w reqBody v uid"
    by (simp add: generating_iff)
  from a have o: "openai e (buildProfileSuggestionPrompt v) = Inr (aiResponse # others)"
    by simp
  note p = POST_generated [OF g o]
  show "POST e w (Some reqBody) =
        (successResponse e v (parseSuggestions (orEmpty aiResponse)),
         if insert_error e then w\<lparr>openai_calls := openai_calls w + 1\<rparr>
         else w\<lparr>openai_calls := openai_calls w + 1,
                profile_suggestions :=
                  profile_suggestions w @
                    [newRow e uid v (parseSuggestions (orEmpty aiResponse))]\<rparr>)"
    by (rule p)
  show "field (body (fst (POST e w (Some reqBody)))) ''cached'' = None"
    by (simp add: p cached_member)
  show "openai_calls (snd (POST e w (Some reqBody))) = openai_calls w + 1"
    by (simp add: p)
qed

text \<open>
  The theorem at the request of the guide's manual test, stored for one user and asked
  again, unchanged, by a second user, with the first words of its background for
  \<open>firstFewWords\<close>: the second request is answered by the model, which has now been
  called twice, and the table holds two records.
\<close>

theorem cache_lookup_fails_witness:
  "profile_suggestions (snd (POST ex_env ex_world (Some ex_body))) =
     [newRow ex_env ''user-1'' ex_input [\<lparr>title = ''A'', reason = ''B'', action = ''C''\<rparr>]] \<and>
   input_data (newRow ex_env ''user-1'' ex_input [\<lparr>title = ''A'', reason = ''B'', action = ''C''\<rparr>]) =
     ex_body \<and>
   cachedSuggestions (profile_suggestions (snd (POST ex_env ex_world (Some ex_body)))) ex_input
     ''I am a career changer'' = None \<and>
   fst (POST (ex_env\<lparr>auth_user := Some ''user-2'', firstFewWords := ''I am a career changer''\<rparr>)
     (snd (POST ex_env ex_world (Some ex_body))) (Some ex_body)) =
     \<lparr>status = 200,
       body = JObject
         [(''success'', JBool True),
          (''suggestions'', JArray [JObject [(''title'', JString ''A''),
             (''reason'', JString ''B''), (''action'', JString ''C'')]]),
          (''metadata'', JObject [(''experienceLevel'', JString ''beginner''),
             (''timestamp'', JString ''2026-01-08T19:20:00.000Z'')])]\<rparr> \<and>
   openai_calls (snd
     (POST (ex_env\<lparr>auth_user := Some ''user-2'', firstFewWords := ''I am a career changer''\<rparr>)
       (snd (POST ex_env ex_world (Some ex_body))) (Some ex_body))) = 2 \<and>
   length (profile_suggestions (snd
     (POST (ex_env\<lparr>auth_user := Some ''user-2'', firstFewWords := ''I am a career changer''\<rparr>)
       (snd (POST ex_env ex_world (Some ex_body))) (Some ex_body)))) = 2"
proof -
  let ?e = "ex_env\<lparr>auth_user := Some ''user-2'', firstFewWords := ''I am a career changer''\<rparr>"
  let ?w1 = "snd (POST ex_env ex_world (Some ex_body))"
  let ?ss = "[\<lparr>title = ''A'', reason = ''B'', action = ''C''\<rparr>]"
  let ?raw = \<open>''{"suggestions":[{"title":"A","reason":"B","action":"C"}]}''\<close>
  have w1: "profile_suggestions ?w1 = [newRow ex_env ''user-1'' ex_input ?ss]"
    by code_simp
  have c1: "openai_calls ?w1 = 1"
    by code_simp
  have d: "input_data (newRow ex_env ''user-1'' ex_input ?ss) = ex_body"
    by code_simp
  have v: "validate aiPromptSchema ex_body = Inr ex_input"
    by code_simp
  have i: "supabase_env ?e" "auth_user ?e = Some ''user-2''" "\<not> insert_error ?e"
    "openai ?e (buildProfileSuggestionPrompt ex_input) = Inr [Some ?raw]"
    by (simp_all add: ex_env_def)
  have r: "recentSuggestion (profile_suggestions ?w1) ''user-2'' (now ?e) = None"
    unfolding w1 by code_simp
  have ps: "parseSuggestions (orEmpty (Some ?raw)) = ?ss"
    by code_simp
  have sr: "successResponse ?e ex_input ?ss =
     \<lparr>status = 200,
       body = JObject
         [(''success'', JBool True),
          (''suggestions'', JArray [JObject [(''title'', JString ''A''),
             (''reason'', JString ''B''), (''action'', JString ''C'')]]),
          (''metadata'', JObject [(''experienceLevel'', JString ''beginner''),
             (''timestamp'', JString ''2026-01-08T19:20:00.000Z'')])]\<rparr>"
    by code_simp
  note t = cache_lookup_fails [of ex_input "''I am a career changer''" "profile_suggestions ?w1"
      ex_body ?e "''user-2''" ?w1 "Some ?raw" "[]"]
  from t have c: "cachedSuggestions (profile_suggestions ?w1) ex_input ''I am a career changer'' = None"
    by blast
  from t v i r have p: "POST ?e ?w1 (Some ex_body) =
      (successResponse ?e ex_input (parseSuggestions (orEmpty (Some ?raw))),
       ?w1\<lparr>openai_calls := openai_calls ?w1 + 1,
            profile_suggestions := profile_suggestions ?w1 @
              [newRow ?e ''user-2'' ex_input (parseSuggestions (orEmpty (Some ?raw)))]\<rparr>)"
    by simp
  have f: "fst (POST ?e ?w1 (Some ex_body)) = successResponse ?e ex_input ?ss"
    by (simp only: p ps fst_conv)
  have n: "openai_calls (snd (POST ?e ?w1 (Some ex_body))) = 2"
    by (simp add: p c1)
  have l: "length (profile_suggestions (snd (POST ?e ?w1 (Some ex_body)))) = 2"
    by (simp add: p w1)
  show ?thesis
    using w1 d c f sr n l by (simp only: simp_thms)
qed

section \<open>\<open>markComplete\<close> is idempotent (claim C10)\<close>

text \<open>
  Claim C10. For a signed-in user and a record of this user that \<open>getById\<close> finds: if
  the record's completions already have the suggestion id, \<open>markComplete\<close> returns the
  record as it is and leaves the table as it is; otherwise it appends exactly one
  completion with this id, the current time and the notes, stores it in this record
  only, and returns the stored record. A call that has returned a record returns the
  same record and leaves the table unchanged when it is repeated with the same id,
  whatever the time and the notes of the repetition.
\<close>

theorem markComplete_idempotent:
  "(getById (Some uid) tbl i = Some current \<and>
    list_ex (\<lambda>c. suggestionId c = sid) (completedOf current) \<longrightarrow>
      markComplete (Some uid) nowISO tbl i sid n = (Inr current, tbl)) \<and>
   (getById (Some uid) tbl i = Some current \<and>
    \<not> list_ex (\<lambda>c. suggestionId c = sid) (completedOf current) \<longrightarrow>
      markComplete (Some uid) nowISO tbl i sid n =
        (Inr (pushCompletion current sid nowISO n),
         map (\<lambda>r. if row_id r = i \<and> user_id r = uid
                    then pushCompletion current sid nowISO n else r) tbl) \<and>
      completedOf (pushCompletion current sid nowISO n) =
        completedOf current @ [\<lparr>suggestionId = sid, completedAt = nowISO, notes_text = n\<rparr>] \<and>
      getById (Some uid) (snd (markComplete (Some uid) nowISO tbl i sid n)) i =
        Some (pushCompletion current sid nowISO n)) \<and>
   (markComplete user nowISO tbl i sid n = (Inr r, tbl') \<longrightarrow>
      markComplete user nowISO' tbl' i sid n' = (Inr r, tbl') \<and>
      list_ex (\<lambda>c. suggestionId c = sid) (completedOf r))"
proof (intro conjI impI)
  assume "getById (Some uid) tbl i = Some current \<and>
    list_ex (\<lambda>c. suggestionId c = sid) (completedOf current)"
  then show "markComplete (Some uid) nowISO tbl i sid n = (Inr current, tbl)"
    using markComplete_present by blast
next
  assume a: "getById (Some uid) tbl i = Some current \<and>
    \<not> list_ex (\<lambda>c. suggestionId c = sid) (completedOf current)"
  then show m: "markComplete (Some uid) nowISO tbl i sid n =
        (Inr (pushCompletion current sid nowISO n),
         map (\<lambda>r. if row_id r = i \<and> user_id r = uid
                    then pushCompletion current sid nowISO n else r) tbl)"
    using markComplete_absent by blast
  show "completedOf (pushCompletion current sid nowISO n) =
        completedOf current @ [\<lparr>suggestionId = sid, completedAt = nowISO, notes_text = n\<rparr>]"
    by (rule completedOf_push)
  show "getById (Some uid) (snd (markComplete (Some uid) nowISO tbl i sid n)) i =
        Some (pushCompletion current sid nowISO n)"
    unfolding m using a getById_after_push by simp
next
  assume a: "markComplete user nowISO tbl i sid n = (Inr r, tbl')"
  show "markComplete user nowISO' tbl' i sid n' = (Inr r, tbl')"
    using markComplete_again [OF a] by blast
  show "list_ex (\<lambda>c. suggestionId c = sid) (completedOf r)"
    using markComplete_again [OF a] by blast
qed

text \<open>
  The theorem on a table of two records: the first call appends the completion, the
  repeated call returns the same record and appends nothing.
\<close>

theorem markComplete_idempotent_witness:
  "markComplete (Some ''user-1'') ''2026-01-09T10:00:00.000Z'' [ex_other, ex_row] ''row-1''
      ''s-1'' (Some ''done'') =
     (Inr (pushCompletion ex_row ''s-1'' ''2026-01-09T10:00:00.000Z'' (Some ''done'')),
      [ex_other, pushCompletion ex_row ''s-1'' ''2026-01-09T10:00:00.000Z'' (Some ''done'')]) \<and>
   completedOf (pushCompletion ex_row ''s-1'' ''2026-01-09T10:00:00.000Z'' (Some ''done'')) =
     [\<lparr>suggestionId = ''s-1'', completedAt = ''2026-01-09T10:00:00.000Z'',
       notes_text = Some ''done''\<rparr>] \<and>
   markComplete (Some ''user-1'') ''2026-01-10T11:00:00.000Z''
      [ex_other, pushCompletion ex_row ''s-1'' ''2026-01-09T10:00:00.000Z'' (Some ''done'')]
      ''row-1'' ''s-1'' None =
     (Inr (pushCompletion ex_row ''s-1'' ''2026-01-09T10:00:00.000Z'' (Some ''done'')),
      [ex_other, pushCompletion ex_row ''s-1'' ''2026-01-09T10:00:00.000Z'' (Some ''done'')])"
proof -
  let ?t = "''2026-01-09T10:00:00.000Z''"
  let ?t' = "''2026-01-10T11:00:00.000Z''"
  let ?p = "pushCompletion ex_row ''s-1'' ?t (Some ''done'')"
  let ?tbl = "[ex_other, ex_row]"
  have g: "getById (Some ''user-1'') ?tbl ''row-1'' = Some ex_row"
    by code_simp
  have a: "\<not> list_ex (\<lambda>c. suggestionId c = ''s-1'') (completedOf ex_row)"
    by code_simp
  have c: "completedOf ex_row = []"
    by code_simp
  have m: "map (\<lambda>r. if row_id r = ''row-1'' \<and> user_id r = ''user-1'' then ?p else r) ?tbl =
      [ex_other, ?p]"
    by (simp add: ex_other_def ex_row_def)
  note t1 = markComplete_idempotent [of "''user-1''" ?tbl "''row-1''" ex_row "''s-1''" ?t
      "Some ''done''" "Some ''user-1''" ?p "[ex_other, ?p]" ?t' None]
  have first: "markComplete (Some ''user-1'') ?t ?tbl ''row-1'' ''s-1'' (Some ''done'') =
      (Inr ?p, [ex_other, ?p])"
    using g a m t1 by simp
  have second: "markComplete (Some ''user-1'') ?t' [ex_other, ?p] ''row-1'' ''s-1'' None =
      (Inr ?p, [ex_other, ?p])"
    using first t1 by blast
  have "completedOf ?p =
      completedOf ex_row @ [\<lparr>suggestionId = ''s-1'', completedAt = ?t, notes_text = Some ''done''\<rparr>]"
    using g a t1 by blast
  then show ?thesis
    using first second c by simp
qed

end
